theory Spec2Isabelle
  imports Main
begin

section \<open>JavaScript values, exceptions and callbacks\<close>

text \<open>
  The router of \<^verbatim>\<open>src/Client.js\<close> handles plain JavaScript values. The values of
  the embedding are \<^verbatim>\<open>undefined\<close>, \<^verbatim>\<open>null\<close>, booleans, strings (code units below
  256), BigInts and plain objects, given by their own properties in enumeration order.
  Numbers (IEEE doubles), arrays, functions as property values and properties inherited
  from \<^verbatim>\<open>Object.prototype\<close> are not represented.
\<close>

datatype jsval =
    JUndefined
  | JNull
  | JBool bool
  | JStr string
  | JBigInt int
  | JObj "(string \<times> jsval) list"

text \<open>
  The exceptions the code can meet. \<open>ErrorObject s\<close> is an \<^verbatim>\<open>Error\<close> thrown by a
  send task of the consumer, given by its \<^verbatim>\<open>stack\<close> property.
\<close>

datatype exn = ErrorObject string | TypeError | ReferenceError | InvalidStateError

text \<open>
  The outcome of an expression of the selection phase of dispatch: a value, a thrown
  exception, or \<open>Unmodelled\<close> when the expression leaves the fragment of JavaScript
  that this development gives a meaning to (a regular expression outside the atoms
  below, a property read on a primitive).
\<close>

datatype 'a res = Val 'a | Throw exn | Unmodelled

fun res_bind :: "'a res \<Rightarrow> ('a \<Rightarrow> 'b res) \<Rightarrow> 'b res" where
  "res_bind (Val x) f = f x"
| "res_bind (Throw e) f = Throw e"
| "res_bind Unmodelled f = Unmodelled"

fun res_of_sum :: "exn + 'a \<Rightarrow> 'a res" where
  "res_of_sum (Inl e) = Throw e"
| "res_of_sum (Inr x) = Val x"

fun res_of_option :: "'a option \<Rightarrow> 'a res" where
  "res_of_option None = Unmodelled"
| "res_of_option (Some x) = Val x"

text \<open>
  A callback of the consumer is observed by its invocations and by whether it returns
  or throws: \<open>body c this arg\<close> is \<open>None\<close> when the call returns and \<open>Some x\<close>
  when it throws. What a send task throws is only logged by \<^verbatim>\<open>Router.send\<close>, and it is
  given as the stack of an \<^verbatim>\<open>Error\<close>. What a handler of an event throws is read by
  \<^verbatim>\<open>ExceptionHandler\<close>, and it is the thrown value itself, of any kind (\<^verbatim>\<open>throw null\<close>
  is a throw); an \<^verbatim>\<open>Error\<close> is the object of its own properties, \<^verbatim>\<open>stack\<close> among them.
  Callbacks do not change the router and do not mutate their argument.
\<close>

datatype ('a, 'e) callback =
  Callback (label: string) (body: "jsval \<Rightarrow> 'a \<Rightarrow> 'e option")

text \<open>ToBoolean, as used by \<^verbatim>\<open>if (x)\<close>, \<^verbatim>\<open>!x\<close>, \<^verbatim>\<open>&&\<close> and \<^verbatim>\<open>?:\<close>.\<close>

fun truthy :: "jsval \<Rightarrow> bool" where
  "truthy JUndefined = False"
| "truthy JNull = False"
| "truthy (JBool b) = b"
| "truthy (JStr s) = (s \<noteq> [])"
| "truthy (JBigInt i) = (i \<noteq> 0)"
| "truthy (JObj fs) = True"

function digits :: "nat \<Rightarrow> string" where
  "digits n =
     (if n < 10 then [char_of (48 + n)]
      else digits (n div 10) @ [char_of (48 + n mod 10)])"
  by pat_completeness auto
termination
  by (relation "measure id") auto

definition bigint_to_string :: "int \<Rightarrow> string" where
  "bigint_to_string i = (if 0 \<le> i then digits (nat i) else CHR ''-'' # digits (nat (- i)))"

text \<open>
  The method call \<^verbatim>\<open>v.toString()\<close>: a TypeError on \<^verbatim>\<open>undefined\<close> and \<^verbatim>\<open>null\<close>,
  and on an object whose own property \<^verbatim>\<open>toString\<close> hides the inherited method with a
  value that cannot be called.
\<close>

fun toString :: "jsval \<Rightarrow> exn + string" where
  "toString JUndefined = Inl TypeError"
| "toString JNull = Inl TypeError"
| "toString (JBool b) = Inr (if b then ''true'' else ''false'')"
| "toString (JStr s) = Inr s"
| "toString (JBigInt i) = Inr (bigint_to_string i)"
| "toString (JObj fs) =
     (if ''toString'' \<in> set (map fst fs) then Inl TypeError else Inr ''[object Object]'')"

text \<open>The conversion of an argument to a string, as \<^verbatim>\<open>RegExp.prototype.exec\<close> does it.\<close>

fun ToString :: "jsval \<Rightarrow> exn + string" where
  "ToString JUndefined = Inr ''undefined''"
| "ToString JNull = Inr ''null''"
| "ToString v = toString v"

text \<open>
  The property read \<^verbatim>\<open>v[key]\<close>. On an object, an own property gives its value; a key
  that is not an own property reads through to \<^verbatim>\<open>Object.prototype\<close>, whose members
  (functions and accessors) are not values of the embedding, and is \<^verbatim>\<open>undefined\<close> when
  \<^verbatim>\<open>Object.prototype\<close> has no such key. The properties of the primitives are not
  modelled.
\<close>

definition object_prototype_keys :: "string list" where
  "object_prototype_keys =
     [''constructor'', ''hasOwnProperty'', ''isPrototypeOf'', ''propertyIsEnumerable'',
      ''toLocaleString'', ''toString'', ''valueOf'', ''__proto__'', ''__defineGetter__'',
      ''__defineSetter__'', ''__lookupGetter__'', ''__lookupSetter__'']"

fun get_property :: "jsval \<Rightarrow> string \<Rightarrow> jsval res" where
  "get_property JUndefined key = Throw TypeError"
| "get_property JNull key = Throw TypeError"
| "get_property (JObj fs) key =
     (case map_of fs key of
        Some v \<Rightarrow> Val v
      | None \<Rightarrow> if key \<in> set object_prototype_keys then Unmodelled else Val JUndefined)"
| "get_property v key = Unmodelled"

text \<open>
  The property read \<^verbatim>\<open>error.stack\<close> of \<^verbatim>\<open>ExceptionHandler\<close>: a TypeError on \<^verbatim>\<open>null\<close>
  and \<^verbatim>\<open>undefined\<close>; the own property of an object, and \<^verbatim>\<open>undefined\<close> when it has
  none (\<^verbatim>\<open>Object.prototype\<close> has no \<^verbatim>\<open>stack\<close>); \<^verbatim>\<open>undefined\<close> on a boolean, a string
  and a BigInt, whose prototypes have no \<^verbatim>\<open>stack\<close> either.
\<close>

fun stack_property :: "jsval \<Rightarrow> exn + jsval" where
  "stack_property JUndefined = Inl TypeError"
| "stack_property JNull = Inl TypeError"
| "stack_property (JObj fs) = Inr (case map_of fs ''stack'' of None \<Rightarrow> JUndefined | Some v \<Rightarrow> v)"
| "stack_property v = Inr JUndefined"

text \<open>\<^verbatim>\<open>JSON.stringify\<close> throws a TypeError on a BigInt, at any depth.\<close>

fun serializable :: "jsval \<Rightarrow> bool" where
  "serializable (JBigInt i) = False"
| "serializable (JObj fs) = list_all (\<lambda>p. serializable (snd p)) fs"
| "serializable v = True"

section \<open>Route patterns\<close>

text \<open>
  \<^verbatim>\<open>routify\<close> builds the source text of a regular expression by two textual
  replacements and hands it to \<^verbatim>\<open>new RegExp\<close>. The regular expressions of the
  embedding are anchored sequences of three kinds of atoms: a literal character, the
  dot, and the class \<^verbatim>\<open>[^\/]+\<close>. \<open>RegExp\<close> reads a source text into such a sequence
  and is \<open>None\<close> on every other source text.
\<close>

definition backslash :: char where
  "backslash = CHR 0x5C"

datatype atom = Lit char | AnyChar | NotSlashPlus

type_synonym regex = "atom list"

definition syntax_characters :: "char list" where
  "syntax_characters = backslash # ''^$.*+?()[]{}|''"

text \<open>\<^verbatim>\<open>n.replace(/\*/g, '[^\/]+')\<close>: the replacement string is the five characters \<^verbatim>\<open>[^/]+\<close>.\<close>

fun replace_star :: "string \<Rightarrow> string" where
  "replace_star [] = []"
| "replace_star (c # cs) =
     (if c = CHR ''*'' then ''[^/]+'' @ replace_star cs else c # replace_star cs)"

text \<open>\<^verbatim>\<open>.replace(/\//g, '\\/')\<close>: every slash becomes a backslash and a slash.\<close>

fun replace_slash :: "string \<Rightarrow> string" where
  "replace_slash [] = []"
| "replace_slash (c # cs) =
     (if c = CHR ''/'' then backslash # CHR ''/'' # replace_slash cs
      else c # replace_slash cs)"

fun parse_atoms :: "string \<Rightarrow> atom list option" where
  "parse_atoms [] = Some []"
| "parse_atoms (c # cs) =
     (if c = CHR ''['' then
        (if take 5 cs = CHR ''^'' # backslash # ''/]+''
         then map_option (Cons NotSlashPlus) (parse_atoms (drop 5 cs)) else None)
      else if c = backslash then
        (if take 1 cs = ''/''
         then map_option (Cons (Lit CHR ''/'')) (parse_atoms (drop 1 cs)) else None)
      else if c = CHR ''.'' then map_option (Cons AnyChar) (parse_atoms cs)
      else if c \<in> set syntax_characters then None
      else map_option (Cons (Lit c)) (parse_atoms cs))"

definition RegExp :: "string \<Rightarrow> regex option" where
  "RegExp src =
     (case src of
        [] \<Rightarrow> None
      | c # cs \<Rightarrow>
          if c = CHR ''^'' \<and> cs \<noteq> [] \<and> last cs = CHR ''$''
          then parse_atoms (butlast cs) else None)"

definition routify :: "string \<Rightarrow> regex option" where
  "routify n = RegExp (''^'' @ replace_slash (replace_star n) @ ''$'')"

text \<open>The dot matches every character but a line terminator.\<close>

definition line_terminator :: "char \<Rightarrow> bool" where
  "line_terminator c = (c = CHR 0x0A \<or> c = CHR 0x0D)"

text \<open>
  Whether the anchored sequence matches the whole string: what \<^verbatim>\<open>exec\<close> returns,
  read as a boolean (a match array is truthy, \<^verbatim>\<open>null\<close> is not).
\<close>

fun matches :: "regex \<Rightarrow> string \<Rightarrow> bool" where
  "matches [] s = (s = [])"
| "matches (a # as) [] = False"
| "matches (Lit c # as) (x # xs) = (x = c \<and> matches as xs)"
| "matches (AnyChar # as) (x # xs) = (\<not> line_terminator x \<and> matches as xs)"
| "matches (NotSlashPlus # as) (x # xs) =
     (x \<noteq> CHR ''/'' \<and> (matches (NotSlashPlus # as) xs \<or> matches as xs))"

definition exec :: "regex \<Rightarrow> jsval \<Rightarrow> exn + bool" where
  "exec r v = (case ToString v of Inl e \<Rightarrow> Inl e | Inr s \<Rightarrow> Inr (matches r s))"

text \<open>
  The pattern of the specification, in its words: a star stands for one path segment
  (one or more characters other than the slash), every other character of the route
  stands for itself, and the whole candidate must be matched.
\<close>

fun segment_matches :: "string \<Rightarrow> string \<Rightarrow> bool" where
  "segment_matches [] s = (s = [])"
| "segment_matches (p # ps) s =
     (if p = CHR ''*''
      then (\<exists>k \<in> {1..length s}. CHR ''/'' \<notin> set (take k s) \<and> segment_matches ps (drop k s))
      else (case s of [] \<Rightarrow> False | x # xs \<Rightarrow> x = p \<and> segment_matches ps xs))"

definition atom_of :: "char \<Rightarrow> atom" where
  "atom_of c = (if c = CHR ''*'' then NotSlashPlus else Lit c)"

text \<open>A route with no character of regular-expression syntax but the star.\<close>

definition plain_route :: "string \<Rightarrow> bool" where
  "plain_route n = list_all (\<lambda>c. c = CHR ''*'' \<or> c \<notin> set syntax_characters) n"

section \<open>Messages, events, tasks and the state\<close>

text \<open>
  A message is an object with the properties \<^verbatim>\<open>route\<close>, \<^verbatim>\<open>action\<close> and \<^verbatim>\<open>data\<close>; an
  absent property reads as \<^verbatim>\<open>undefined\<close>.
\<close>

record msg =
  route :: jsval
  action :: jsval
  data :: jsval

definition serializable_msg :: "msg \<Rightarrow> bool" where
  "serializable_msg m = (serializable (route m) \<and> serializable (action m) \<and> serializable (data m))"

text \<open>\<^verbatim>\<open>evt.fn instanceof Array\<close> tells one handler from an array of handlers.\<close>

datatype handlers = Single "(jsval, jsval) callback" | Array "(jsval, jsval) callback list"

text \<open>
  An event object \<^verbatim>\<open>{n, fn, action, filters, bind}\<close>. The pattern \<^verbatim>\<open>n\<close> is compiled
  at registration; \<^verbatim>\<open>action\<close> is kept as a value and compiled at every dispatch.
  \<^verbatim>\<open>filters\<close>, when present, is an object (its documented type).
\<close>

record event =
  ev_n :: regex
  ev_fn :: handlers
  ev_action :: jsval
  ev_filters :: "(string \<times> jsval) list option"
  ev_bind :: jsval

text \<open>
  The two constants \<^verbatim>\<open>BEFORE = 'BEFORE'\<close> and \<^verbatim>\<open>AFTER = 'AFTER;'\<close>: two different
  strings, only ever compared with each other.
\<close>

datatype position = BEFORE | AFTER

record task =
  task_route :: regex
  task_fn :: "(msg, string) callback"
  task_position :: position

text \<open>What the program does to its environment, in the order in which it does it.\<close>

datatype effect =
    NewWebSocket string
  | SetTimeout nat
  | Transmit msg
  | HandlerRun string jsval jsval
  | TaskRun string msg
  | ConsoleLogText string
  | ConsoleLogError exn

text \<open>
  The state: the fields of the Router, the fields of the ConnectionHandler it owns
  (\<^verbatim>\<open>Router.connection\<close>), the ready state of the WebSocket the handler holds
  (\<^verbatim>\<open>ConnectionHandler.connection\<close>; 0 connecting, 1 open, 2 closing, 3 closed), the
  delays of the pending \<^verbatim>\<open>setTimeout\<close> calls, and the effects so far.
  \<open>router_messageQueue\<close> and \<open>handler_onopen\<close> are the two properties that
  \<^verbatim>\<open>Router.prototype.close\<close> creates: \<^verbatim>\<open>messageQueue\<close> on the Router and \<^verbatim>\<open>onopen\<close>
  on the ConnectionHandler.
\<close>

record state =
  events :: "event list"
  lastEvents :: "event list"
  registeredTasks :: "task list"
  ctx :: jsval
  router_messageQueue :: "msg list option"
  connection_query :: string
  messageQueue :: "msg list"
  connectionsAttemp :: nat
  handler_onopen :: bool
  readyState :: nat
  timers :: "nat list"
  trace :: "effect list"

section \<open>ConnectionHandler\<close>

definition connect :: "state \<Rightarrow> state" where
  "connect st =
     st\<lparr>connectionsAttemp := connectionsAttemp st + 1,
        readyState := 0,
        trace := trace st @ [NewWebSocket (connection_query st)]\<rparr>"

definition give_up_text :: "string \<Rightarrow> string" where
  "give_up_text query = ''10 Attemps to connect failed to the server '' @ query @ ''. Is server up?''"

text \<open>
  \<^verbatim>\<open>setTimeout(this.connect.bind(this), 1000)\<close> is kept as a pending timer with the
  delay it was asked for; the clock itself is not part of the state.
\<close>

definition reconnect :: "state \<Rightarrow> state" where
  "reconnect st =
     (if connectionsAttemp st < 10
      then st\<lparr>timers := timers st @ [1000], trace := trace st @ [SetTimeout 1000]\<rparr>
      else st\<lparr>trace := trace st @ [ConsoleLogText (give_up_text (connection_query st))]\<rparr>)"

text \<open>
  \<^verbatim>\<open>this.connection.send(JSON.stringify(message))\<close>: the serialisation throws on a
  BigInt; the WebSocket throws while it is connecting, transmits when it is open, and
  drops the data without an exception when it is closing or closed.
\<close>

definition transport_send :: "msg \<Rightarrow> state \<Rightarrow> exn + state" where
  "transport_send message st =
     (if \<not> serializable_msg message then Inl TypeError
      else if readyState st = 0 then Inl InvalidStateError
      else if readyState st = 1 then Inr (st\<lparr>trace := trace st @ [Transmit message]\<rparr>)
      else Inr st)"

definition ConnectionHandler_send :: "msg \<Rightarrow> state \<Rightarrow> state" where
  "ConnectionHandler_send message st =
     (case transport_send message st of
        Inl err \<Rightarrow> st\<lparr>messageQueue := messageQueue st @ [message]\<rparr>
      | Inr st' \<Rightarrow> st')"

text \<open>
  The loop of \<^verbatim>\<open>flush\<close> walks the array iterator of \<^verbatim>\<open>this.messageQueue\<close>: the
  iterator keeps an index and compares it with the length of the array at every step,
  and \<^verbatim>\<open>send\<close> pushes onto that same array. The loop need not end, so it is a partial
  function, \<open>None\<close> when it runs forever.
\<close>

partial_function (option) flush_loop :: "nat \<Rightarrow> state \<Rightarrow> state option" where
  "flush_loop i st =
     (if i < length (messageQueue st)
      then flush_loop (Suc i) (ConnectionHandler_send (messageQueue st ! i) st)
      else Some st)"

definition flush :: "state \<Rightarrow> state option" where
  "flush st =
     (case flush_loop 0 (st\<lparr>connectionsAttemp := 0\<rparr>) of
        None \<Rightarrow> None
      | Some st' \<Rightarrow> Some (st'\<lparr>messageQueue := []\<rparr>))"

text \<open>
  The reactions that \<^verbatim>\<open>connect\<close> installs on the WebSocket, and the timer that
  \<^verbatim>\<open>reconnect\<close> sets: the socket opens (\<^verbatim>\<open>onopen\<close> is \<^verbatim>\<open>flush\<close>), the socket closes
  (\<^verbatim>\<open>onclose\<close> is \<^verbatim>\<open>reconnect\<close>), the oldest pending timer fires (\<^verbatim>\<open>connect\<close>).
\<close>

definition socket_opened :: "state \<Rightarrow> state option" where
  "socket_opened st = flush (st\<lparr>readyState := 1\<rparr>)"

definition socket_closed :: "state \<Rightarrow> state" where
  "socket_closed st = reconnect (st\<lparr>readyState := 3\<rparr>)"

definition timer_fired :: "state \<Rightarrow> state" where
  "timer_fired st = (case timers st of [] \<Rightarrow> st | d # ds \<Rightarrow> connect (st\<lparr>timers := ds\<rparr>))"

text \<open>
  \<^verbatim>\<open>new Router(connection_query, ctx)\<close>: empty collections, and a ConnectionHandler
  with an empty queue and no attempt, which calls \<^verbatim>\<open>connect\<close> at once.
\<close>

definition WebSocketRouter :: "string \<Rightarrow> jsval \<Rightarrow> state" where
  "WebSocketRouter query c =
     connect
       \<lparr>events = [], lastEvents = [], registeredTasks = [], ctx = c,
        router_messageQueue = None, connection_query = query, messageQueue = [],
        connectionsAttemp = 0, handler_onopen = False, readyState = 0, timers = [],
        trace = []\<rparr>"

text \<open>
  One attempt that fails: the socket closes before it opens, and the timer that
  \<^verbatim>\<open>reconnect\<close> may have set fires.
\<close>

definition failed_attempt :: "state \<Rightarrow> state" where
  "failed_attempt st = timer_fired (socket_closed st)"

definition connect_calls :: "state \<Rightarrow> nat" where
  "connect_calls st = length (filter (\<lambda>e. case e of NewWebSocket q \<Rightarrow> True | _ \<Rightarrow> False) (trace st))"

text \<open>
  \<^verbatim>\<open>Router.prototype.close\<close> is a method of the Router: there \<^verbatim>\<open>this.messageQueue\<close> is a
  property of the Router and \<^verbatim>\<open>this.connection\<close> is the ConnectionHandler, which has
  the properties \<^verbatim>\<open>connection_query\<close>, \<^verbatim>\<open>on_message\<close>, \<^verbatim>\<open>messageQueue\<close>,
  \<^verbatim>\<open>connectionsAttemp\<close> and \<^verbatim>\<open>connection\<close> and the methods \<^verbatim>\<open>connect\<close>, \<^verbatim>\<open>dispatch\<close>,
  \<^verbatim>\<open>reconnect\<close>, \<^verbatim>\<open>flush\<close> and \<^verbatim>\<open>send\<close>. So \<^verbatim>\<open>this.connection.readyState\<close> reads
  \<^verbatim>\<open>undefined\<close>, and \<^verbatim>\<open>this.connection.close\<close> is not a function.
\<close>

definition handler_readyState :: "state \<Rightarrow> nat option" where
  "handler_readyState st = None"

definition Router_close :: "state \<Rightarrow> exn + state" where
  "Router_close st =
     (let st1 = st\<lparr>router_messageQueue := Some []\<rparr> in
      if handler_readyState st1 = Some 1 then Inl TypeError
      else Inr (st1\<lparr>handler_onopen := True\<rparr>))"

section \<open>Router: outbound messages\<close>

definition shouldTaskExecute :: "msg \<Rightarrow> task \<Rightarrow> position \<Rightarrow> exn + bool" where
  "shouldTaskExecute d t pos =
     (if pos \<noteq> task_position t then Inr False else exec (task_route t) (route d))"

text \<open>
  The loop of \<^verbatim>\<open>executeTaks\<close> over \<^verbatim>\<open>this.registeredTasks\<close>. An exception leaves the
  loop with the state as it was when it was thrown.
\<close>

fun executeTaks_loop :: "task list \<Rightarrow> msg \<Rightarrow> position \<Rightarrow> state \<Rightarrow> (exn \<times> state) + state" where
  "executeTaks_loop [] d pos st = Inr st"
| "executeTaks_loop (t # ts) d pos st =
     (case shouldTaskExecute d t pos of
        Inl e \<Rightarrow> Inl (e, st)
      | Inr False \<Rightarrow> executeTaks_loop ts d pos st
      | Inr True \<Rightarrow>
          (let st' = st\<lparr>trace := trace st @ [TaskRun (label (task_fn t)) d]\<rparr> in
           case body (task_fn t) (ctx st) d of
             Some stack \<Rightarrow> Inl (ErrorObject stack, st')
           | None \<Rightarrow> executeTaks_loop ts d pos st'))"

definition executeTaks :: "msg \<Rightarrow> position \<Rightarrow> state \<Rightarrow> (exn \<times> state) + state" where
  "executeTaks d pos st = executeTaks_loop (registeredTasks st) d pos st"

definition console_log :: "exn \<Rightarrow> state \<Rightarrow> state" where
  "console_log err st = st\<lparr>trace := trace st @ [ConsoleLogError err]\<rparr>"

text \<open>
  \<^verbatim>\<open>Router.prototype.send\<close>: one \<^verbatim>\<open>try\<close> around the three phases, and a \<^verbatim>\<open>catch\<close> that
  logs. Nothing leaves the function but a state.
\<close>

definition Router_send :: "msg \<Rightarrow> state \<Rightarrow> state" where
  "Router_send message st =
     (case executeTaks message BEFORE st of
        Inl (err, st1) \<Rightarrow> console_log err st1
      | Inr st1 \<Rightarrow>
          (case executeTaks message AFTER (ConnectionHandler_send message st1) of
             Inl (err, st3) \<Rightarrow> console_log err st3
           | Inr st3 \<Rightarrow> st3))"

definition registerSendTask :: "string \<Rightarrow> (msg, string) callback \<Rightarrow> position \<Rightarrow> state \<Rightarrow> state option" where
  "registerSendTask r f pos st =
     (case routify r of
        None \<Rightarrow> None
      | Some rx \<Rightarrow>
          Some (st\<lparr>registeredTasks := registeredTasks st @
                  [\<lparr>task_route = rx, task_fn = f, task_position = pos\<rparr>]\<rparr>))"

definition beforeSend :: "string \<Rightarrow> (msg, string) callback \<Rightarrow> state \<Rightarrow> state option" where
  "beforeSend r f st = registerSendTask r f BEFORE st"

definition afterSend :: "string \<Rightarrow> (msg, string) callback \<Rightarrow> state \<Rightarrow> state option" where
  "afterSend r f st = registerSendTask r f AFTER st"

section \<open>Router: registration\<close>

text \<open>
  \<^verbatim>\<open>on\<close> pushes a new event object and returns a builder whose methods hold a
  reference to that object. No code removes or reorders the elements of
  \<^verbatim>\<open>this.events\<close>, so the reference is the index at which the event was pushed.
\<close>

definition on :: "string \<Rightarrow> handlers \<Rightarrow> state \<Rightarrow> (nat \<times> state) option" where
  "on name f st =
     (case routify name of
        None \<Rightarrow> None
      | Some rx \<Rightarrow>
          Some (length (events st),
                st\<lparr>events := events st @
                  [\<lparr>ev_n = rx, ev_fn = f, ev_action = JStr ''*'', ev_filters = None,
                    ev_bind = JUndefined\<rparr>]\<rparr>))"

definition update_event :: "nat \<Rightarrow> (event \<Rightarrow> event) \<Rightarrow> state \<Rightarrow> state" where
  "update_event b f st =
     (if b < length (events st) then st\<lparr>events := (events st)[b := f (events st ! b)]\<rparr> else st)"

definition builder_action :: "nat \<Rightarrow> jsval \<Rightarrow> state \<Rightarrow> state" where
  "builder_action b a st = (if truthy a then update_event b (\<lambda>e. e\<lparr>ev_action := a\<rparr>) st else st)"

definition builder_filters :: "nat \<Rightarrow> (string \<times> jsval) list option \<Rightarrow> state \<Rightarrow> state" where
  "builder_filters b fs st =
     (case fs of None \<Rightarrow> st | Some f \<Rightarrow> update_event b (\<lambda>e. e\<lparr>ev_filters := Some f\<rparr>) st)"

definition builder_bind :: "nat \<Rightarrow> jsval \<Rightarrow> state \<Rightarrow> state" where
  "builder_bind b c st = (if truthy c then update_event b (\<lambda>e. e\<lparr>ev_bind := c\<rparr>) st else st)"

text \<open>
  The body of \<^verbatim>\<open>executeLast\<close> starts by evaluating the identifier \<^verbatim>\<open>lastEvents\<close>. The
  names bound around it are \<^verbatim>\<open>event\<close>, \<^verbatim>\<open>n\<close>, \<^verbatim>\<open>fn\<close>, \<^verbatim>\<open>BEFORE\<close>, \<^verbatim>\<open>AFTER\<close>,
  \<^verbatim>\<open>ConnectionHandler\<close>, \<^verbatim>\<open>Router\<close>, \<^verbatim>\<open>connection_query\<close>, \<^verbatim>\<open>ctx\<close> and
  \<^verbatim>\<open>WebSocketRouter\<close>; the arrays are properties of the Router (\<^verbatim>\<open>this.events\<close>,
  \<^verbatim>\<open>this.lastEvents\<close>), not variables. The identifier has no binding, the evaluation
  throws a ReferenceError, and nothing has changed by then.
\<close>

definition executeLast_scope :: "string list" where
  "executeLast_scope =
     [''event'', ''n'', ''fn'', ''BEFORE'', ''AFTER'', ''ConnectionHandler'', ''Router'',
      ''connection_query'', ''ctx'', ''WebSocketRouter'']"

definition executeLast :: "nat \<Rightarrow> state \<Rightarrow> state res" where
  "executeLast b st =
     (if ''lastEvents'' \<in> set executeLast_scope then Unmodelled else Throw ReferenceError)"

definition on_action :: "string \<Rightarrow> string \<Rightarrow> handlers \<Rightarrow> (string \<times> jsval) list option \<Rightarrow> state \<Rightarrow>
    (nat \<times> state) option" where
  "on_action a name f fs st =
     (case on name f st of
        None \<Rightarrow> None
      | Some (b, st1) \<Rightarrow> Some (b, builder_filters b fs (builder_action b (JStr a) st1)))"

definition delete :: "string \<Rightarrow> handlers \<Rightarrow> (string \<times> jsval) list option \<Rightarrow> state \<Rightarrow>
    (nat \<times> state) option" where
  "delete = on_action ''DELETE''"

definition update :: "string \<Rightarrow> handlers \<Rightarrow> (string \<times> jsval) list option \<Rightarrow> state \<Rightarrow>
    (nat \<times> state) option" where
  "update = on_action ''UPDATE''"

definition create :: "string \<Rightarrow> handlers \<Rightarrow> (string \<times> jsval) list option \<Rightarrow> state \<Rightarrow>
    (nat \<times> state) option" where
  "create = on_action ''CREATE''"

definition request :: "string \<Rightarrow> handlers \<Rightarrow> (string \<times> jsval) list option \<Rightarrow> state \<Rightarrow>
    (nat \<times> state) option" where
  "request = on_action ''REQUEST''"

definition subscribe :: "string \<Rightarrow> handlers \<Rightarrow> (string \<times> jsval) list option \<Rightarrow> state \<Rightarrow>
    (nat \<times> state) option" where
  "subscribe = on_action ''SUBSCRIBE''"

text \<open>\<^verbatim>\<open>intercept\<close> pushes \<^verbatim>\<open>{n, fn}\<close>: an event with no \<^verbatim>\<open>action\<close> property.\<close>

definition intercept :: "string \<Rightarrow> handlers \<Rightarrow> state \<Rightarrow> state option" where
  "intercept name f st =
     (case routify name of
        None \<Rightarrow> None
      | Some rx \<Rightarrow>
          Some (st\<lparr>events := events st @
                  [\<lparr>ev_n = rx, ev_fn = f, ev_action = JUndefined, ev_filters = None,
                    ev_bind = JUndefined\<rparr>]\<rparr>))"

section \<open>Router: inbound messages\<close>

text \<open>
  \<^verbatim>\<open>this.routify(v)\<close> on a value: \<^verbatim>\<open>n.replace\<close> is a function on a string only, and a
  TypeError on every other value of the embedding.
\<close>

fun routify_value :: "jsval \<Rightarrow> regex res" where
  "routify_value (JStr s) = res_of_option (routify s)"
| "routify_value v = Throw TypeError"

text \<open>
  The \<^verbatim>\<open>forEach\<close> of \<^verbatim>\<open>applyFilters\<close> over the own keys of the event's filters. The
  pattern is compiled from the value of the message (\<^verbatim>\<open>dataFilters[key].toString()\<close>)
  and run on the value of the filter (\<^verbatim>\<open>eventFilters[key].toString()\<close>).
\<close>

fun applyFilters_loop :: "jsval \<Rightarrow> (string \<times> jsval) list \<Rightarrow> bool \<Rightarrow> bool res" where
  "applyFilters_loop dataFilters [] isFilterMatching = Val isFilterMatching"
| "applyFilters_loop dataFilters ((key, filter_value) # rest) isFilterMatching =
     res_bind (get_property dataFilters key) (\<lambda>data_value.
     res_bind (res_of_sum (toString data_value)) (\<lambda>pattern.
     res_bind (res_of_option (routify pattern)) (\<lambda>rx.
     res_bind (res_of_sum (toString filter_value)) (\<lambda>candidate.
       applyFilters_loop dataFilters rest
         (if \<not> matches rx candidate then False else isFilterMatching)))))"

definition applyFilters :: "jsval \<Rightarrow> (string \<times> jsval) list \<Rightarrow> bool res" where
  "applyFilters dataFilters eventFilters = applyFilters_loop dataFilters eventFilters True"

definition shouldEventExecute :: "msg \<Rightarrow> event \<Rightarrow> bool res" where
  "shouldEventExecute d evt =
     res_bind (routify_value (ev_action evt)) (\<lambda>rx.
     res_bind (res_of_sum (exec rx (action d))) (\<lambda>action_matches.
       if \<not> action_matches then Val False
       else
         res_bind
           (case ev_filters evt of
              None \<Rightarrow> Val False
            | Some fs \<Rightarrow>
                if \<not> truthy (data d) then Val True
                else res_bind (applyFilters (data d) fs) (\<lambda>ok. Val (\<not> ok)))
           (\<lambda>rejected.
              if rejected then Val False else res_of_sum (exec (ev_n evt) (route d)))))"

text \<open>A run-list entry is a handler with the \<^verbatim>\<open>this\<close> it was bound to.\<close>

definition applyToQueue :: "jsval \<Rightarrow> event \<Rightarrow> ((jsval, jsval) callback \<times> jsval) list \<Rightarrow>
    ((jsval, jsval) callback \<times> jsval) list" where
  "applyToQueue c evt run =
     (let this = (if truthy (ev_bind evt) then ev_bind evt else c) in
      case ev_fn evt of
        Array fs \<Rightarrow> run @ map (\<lambda>f. (f, this)) fs
      | Single f \<Rightarrow> run @ [(f, this)])"

fun select_events :: "jsval \<Rightarrow> msg \<Rightarrow> event list \<Rightarrow> ((jsval, jsval) callback \<times> jsval) list \<Rightarrow>
    ((jsval, jsval) callback \<times> jsval) list res" where
  "select_events c d [] run = Val run"
| "select_events c d (evt # evts) run =
     res_bind (shouldEventExecute d evt) (\<lambda>yes.
       select_events c d evts (if yes then applyToQueue c evt run else run))"

text \<open>
  \<^verbatim>\<open>ExceptionHandler(error)\<close> is \<^verbatim>\<open>{'message': error.stack}\<close>, on whatever was thrown:
  the read of \<^verbatim>\<open>error.stack\<close> throws when the thrown value is \<^verbatim>\<open>null\<close> or
  \<^verbatim>\<open>undefined\<close>.
\<close>

definition ExceptionHandler :: "jsval \<Rightarrow> exn + jsval" where
  "ExceptionHandler error =
     (case stack_property error of
        Inl e \<Rightarrow> Inl e
      | Inr stack \<Rightarrow> Inr (JObj [(''message'', stack)]))"

definition Router_error :: "jsval \<Rightarrow> state \<Rightarrow> state" where
  "Router_error err st =
     Router_send \<lparr>route = JStr ''/socket/error'', action = JUndefined, data = err\<rparr> st"

text \<open>
  The loop of \<^verbatim>\<open>runner\<close>: the first handler that throws leaves it, with the thrown
  value and the state at that moment.
\<close>

fun runner_loop :: "((jsval, jsval) callback \<times> jsval) list \<Rightarrow> jsval \<Rightarrow> state \<Rightarrow>
    (jsval \<times> state) + state" where
  "runner_loop [] d st = Inr st"
| "runner_loop ((h, this) # run) d st =
     (let st' = st\<lparr>trace := trace st @ [HandlerRun (label h) this d]\<rparr> in
      case body h this d of
        Some thrown \<Rightarrow> Inl (thrown, st')
      | None \<Rightarrow> runner_loop run d st')"

text \<open>
  \<^verbatim>\<open>runner\<close>: the \<^verbatim>\<open>catch\<close> evaluates \<^verbatim>\<open>this.error(this.ExceptionHandler(e))\<close>. An
  exception of \<^verbatim>\<open>ExceptionHandler\<close> is thrown inside the \<^verbatim>\<open>catch\<close> and leaves
  \<^verbatim>\<open>runner\<close>, with the state at that moment.
\<close>

definition runner :: "((jsval, jsval) callback \<times> jsval) list \<Rightarrow> jsval \<Rightarrow> state \<Rightarrow>
    (exn \<times> state) + state" where
  "runner run d st =
     (case runner_loop run d st of
        Inl (thrown, st') \<Rightarrow>
          (case ExceptionHandler thrown of
             Inl e \<Rightarrow> Inl (e, st')
           | Inr err \<Rightarrow> Inr (Router_error err st'))
      | Inr st' \<Rightarrow> Inr st')"

definition run_list :: "msg \<Rightarrow> state \<Rightarrow> ((jsval, jsval) callback \<times> jsval) list res" where
  "run_list d st =
     res_bind (select_events (ctx st) d (events st) []) (\<lambda>run.
       select_events (ctx st) d (lastEvents st) run)"

text \<open>
  \<^verbatim>\<open>dispatch\<close>: the selection, then \<^verbatim>\<open>runner\<close> on the run-list and \<^verbatim>\<open>data.data\<close>. An
  exception of the selection or of \<^verbatim>\<open>runner\<close> leaves \<^verbatim>\<open>dispatch\<close>; the state in which
  \<^verbatim>\<open>runner\<close> threw is the one \<open>runner\<close> gives.
\<close>

definition dispatch :: "msg \<Rightarrow> state \<Rightarrow> state res" where
  "dispatch d st =
     res_bind (run_list d st) (\<lambda>run.
       case runner run (data d) st of
         Inl (e, st') \<Rightarrow> Throw e
       | Inr st' \<Rightarrow> Val st')"

section \<open>Observations on runs\<close>

text \<open>
  The tasks that \<^verbatim>\<open>executeTaks\<close> selects for a position and a route string, the
  effects of running a list of tasks or of run-list entries, and the frames that have
  gone to the transport.
\<close>

definition selected_tasks :: "position \<Rightarrow> string \<Rightarrow> task list \<Rightarrow> task list" where
  "selected_tasks pos s ts = filter (\<lambda>t. task_position t = pos \<and> matches (task_route t) s) ts"

definition task_runs :: "msg \<Rightarrow> task list \<Rightarrow> effect list" where
  "task_runs d ts = map (\<lambda>t. TaskRun (label (task_fn t)) d) ts"

definition returns :: "jsval \<Rightarrow> msg \<Rightarrow> task \<Rightarrow> bool" where
  "returns c d t = (body (task_fn t) c d = None)"

definition handler_runs :: "jsval \<Rightarrow> ((jsval, jsval) callback \<times> jsval) list \<Rightarrow> effect list" where
  "handler_runs d run = map (\<lambda>(h, this). HandlerRun (label h) this d) run"

definition handler_returns :: "jsval \<Rightarrow> (jsval, jsval) callback \<times> jsval \<Rightarrow> bool" where
  "handler_returns d entry = (body (fst entry) (snd entry) d = None)"

text \<open>The state after the entries of a run-list have been called on a payload.\<close>

definition ran :: "jsval \<Rightarrow> ((jsval, jsval) callback \<times> jsval) list \<Rightarrow> state \<Rightarrow> state" where
  "ran d run st = st\<lparr>trace := trace st @ handler_runs d run\<rparr>"

definition transmitted :: "state \<Rightarrow> msg list" where
  "transmitted st = concat (map (\<lambda>e. case e of Transmit m \<Rightarrow> [m] | _ \<Rightarrow> []) (trace st))"

definition handler_trace :: "state \<Rightarrow> effect list" where
  "handler_trace st = filter (\<lambda>e. case e of HandlerRun l this d \<Rightarrow> True | _ \<Rightarrow> False) (trace st)"

definition same_tables :: "state \<Rightarrow> state \<Rightarrow> bool" where
  "same_tables st st' =
     (events st' = events st \<and> lastEvents st' = lastEvents st \<and>
      registeredTasks st' = registeredTasks st \<and> ctx st' = ctx st)"

definition error_message :: "jsval \<Rightarrow> msg" where
  "error_message stack =
     \<lparr>route = JStr ''/socket/error'', action = JUndefined, data = JObj [(''message'', stack)]\<rparr>"

text \<open>Callbacks, tasks, messages and states for the concrete runs below.\<close>

definition quiet :: "string \<Rightarrow> ('a, 'e) callback" where
  "quiet l = Callback l (\<lambda>this arg. None)"

definition failing :: "string \<Rightarrow> 'e \<Rightarrow> ('a, 'e) callback" where
  "failing l thrown = Callback l (\<lambda>this arg. Some thrown)"

definition room_pattern :: regex where
  "room_pattern = [Lit CHR ''/'', Lit CHR ''r'', Lit CHR ''/'', NotSlashPlus]"

definition room_message :: msg where
  "room_message =
     \<lparr>route = JStr ''/r/7'', action = JStr ''CREATE'', data = JObj [(''text'', JStr ''hi'')]\<rparr>"

definition open_router :: state where
  "open_router = (WebSocketRouter ''ws://localhost:8080'' JUndefined)\<lparr>connectionsAttemp := 0, readyState := 1\<rparr>"

definition room_task :: "position \<Rightarrow> (msg, string) callback \<Rightarrow> task" where
  "room_task pos f = \<lparr>task_route = room_pattern, task_fn = f, task_position = pos\<rparr>"

definition hooks_quiet :: "task list" where
  "hooks_quiet =
     [room_task BEFORE (quiet ''b1''), room_task AFTER (quiet ''a1''),
      room_task BEFORE (quiet ''b2'')]"

definition hooks_before_fails :: "task list" where
  "hooks_before_fails =
     [room_task BEFORE (quiet ''b1''), room_task BEFORE (failing ''b2'' ''Error: b2''),
      room_task AFTER (quiet ''a1'')]"

definition hooks_after_fails :: "task list" where
  "hooks_after_fails =
     [room_task BEFORE (quiet ''b1''), room_task AFTER (failing ''a1'' ''Error: a1''),
      room_task AFTER (quiet ''a2'')]"

definition error_B :: jsval where
  "error_B = JObj [(''message'', JStr ''B''), (''stack'', JStr ''Error: B'')]"

definition throwing_event :: "string \<Rightarrow> jsval \<Rightarrow> event" where
  "throwing_event l thrown =
     \<lparr>ev_n = room_pattern, ev_fn = Single (failing l thrown), ev_action = JStr ''*'',
      ev_filters = None, ev_bind = JUndefined\<rparr>"

definition error_pattern :: regex where
  "error_pattern = map Lit ''/socket/error''"

definition guard_task :: task where
  "guard_task =
     \<lparr>task_route = error_pattern, task_fn = failing ''guard'' ''Error: guard'',
      task_position = BEFORE\<rparr>"

definition room_event :: "string \<Rightarrow> event" where
  "room_event l =
     \<lparr>ev_n = room_pattern, ev_fn = Single (quiet l), ev_action = JStr ''*'', ev_filters = None,
      ev_bind = JUndefined\<rparr>"

definition items_pattern :: regex where
  "items_pattern =
     [Lit CHR ''/'', Lit CHR ''i'', Lit CHR ''t'', Lit CHR ''e'', Lit CHR ''m'', Lit CHR ''s'',
      Lit CHR ''/'', NotSlashPlus]"

definition items_event :: "(string \<times> jsval) list \<Rightarrow> event" where
  "items_event fs =
     \<lparr>ev_n = items_pattern, ev_fn = Single (quiet ''h''), ev_action = JStr ''UPDATE'',
      ev_filters = Some fs, ev_bind = JUndefined\<rparr>"

definition items_message :: "jsval \<Rightarrow> msg" where
  "items_message d = \<lparr>route = JStr ''/items/5'', action = JStr ''UPDATE'', data = d\<rparr>"

definition bigint_message :: msg where
  "bigint_message = \<lparr>route = JStr ''/r/7'', action = JStr ''CREATE'', data = JBigInt 10\<rparr>"

definition odd_route_message :: msg where
  "odd_route_message =
     \<lparr>route = JObj [(''toString'', JNull)], action = JUndefined, data = JUndefined\<rparr>"

section \<open>Pattern compilation\<close>

lemma atom_of_star: "atom_of CHR ''*'' = NotSlashPlus"
  by (simp add: atom_of_def)

lemma atom_of_other: "p \<noteq> CHR ''*'' \<Longrightarrow> atom_of p = Lit p"
  by (simp add: atom_of_def)

lemma replace_slash_class:
  "replace_slash (''[^/]+'' @ ys) = CHR ''['' # CHR ''^'' # backslash # ''/]+'' @ replace_slash ys"
  by (simp add: backslash_def)

lemma parse_atoms_class:
  "parse_atoms (CHR ''['' # CHR ''^'' # backslash # ''/]+'' @ ys) =
     map_option (Cons NotSlashPlus) (parse_atoms ys)"
  by simp

lemma parse_atoms_slash:
  "parse_atoms (backslash # CHR ''/'' # ys) = map_option (Cons (Lit CHR ''/'')) (parse_atoms ys)"
  by (simp add: backslash_def)

lemma parse_atoms_literal:
  "c \<notin> set syntax_characters \<Longrightarrow>
     parse_atoms (c # ys) = map_option (Cons (Lit c)) (parse_atoms ys)"
  by (auto simp add: syntax_characters_def)

lemma parse_atoms_routify:
  "plain_route n \<Longrightarrow> parse_atoms (replace_slash (replace_star n)) = Some (map atom_of n)"
proof (induction n)
  case Nil
  then show ?case by simp
next
  case (Cons c cs)
  then have ih: "parse_atoms (replace_slash (replace_star cs)) = Some (map atom_of cs)"
    by (simp add: plain_route_def)
  show ?case
  proof (cases "c = CHR ''*''")
    case True
    have "replace_slash (replace_star (c # cs)) =
            CHR ''['' # CHR ''^'' # backslash # ''/]+'' @ replace_slash (replace_star cs)"
      using True replace_slash_class [of "replace_star cs"] by simp
    then show ?thesis
      using True ih parse_atoms_class [of "replace_slash (replace_star cs)"]
      by (simp add: atom_of_star)
  next
    case star: False
    with Cons.prems have plain: "c \<notin> set syntax_characters"
      by (simp add: plain_route_def)
    show ?thesis
    proof (cases "c = CHR ''/''")
      case True
      then have "replace_slash (replace_star (c # cs)) =
                   backslash # CHR ''/'' # replace_slash (replace_star cs)"
        by simp
      then show ?thesis
        using True ih parse_atoms_slash [of "replace_slash (replace_star cs)"]
        by (simp add: atom_of_other)
    next
      case False
      then have "replace_slash (replace_star (c # cs)) = c # replace_slash (replace_star cs)"
        using star by simp
      then show ?thesis
        using star ih parse_atoms_literal [OF plain, of "replace_slash (replace_star cs)"]
        by (simp add: atom_of_other)
    qed
  qed
qed

lemma RegExp_anchored: "RegExp (''^'' @ src @ ''$'') = parse_atoms src"
  by (simp add: RegExp_def)

lemma routify_plain: "plain_route n \<Longrightarrow> routify n = Some (map atom_of n)"
  using RegExp_anchored [of "replace_slash (replace_star n)"] parse_atoms_routify [of n]
  by (simp add: routify_def)

lemma matches_segment:
  "matches (NotSlashPlus # as) s =
     (\<exists>k \<in> {1..length s}. CHR ''/'' \<notin> set (take k s) \<and> matches as (drop k s))"
proof (induction s)
  case Nil
  then show ?case by simp
next
  case (Cons x xs)
  let ?P = "\<lambda>k t. CHR ''/'' \<notin> set (take k t) \<and> matches as (drop k t)"
  have "(\<exists>k \<in> {1..length (x # xs)}. ?P k (x # xs)) =
          (?P 1 (x # xs) \<or> (\<exists>k \<in> {1..length xs}. ?P (Suc k) (x # xs)))"
  proof
    assume "\<exists>k \<in> {1..length (x # xs)}. ?P k (x # xs)"
    then obtain k where k: "1 \<le> k" "k \<le> Suc (length xs)" "?P k (x # xs)"
      by auto
    show "?P 1 (x # xs) \<or> (\<exists>k \<in> {1..length xs}. ?P (Suc k) (x # xs))"
    proof (cases "k = 1")
      case True
      with k show ?thesis by simp
    next
      case False
      with k obtain j where "k = Suc j" "1 \<le> j" "j \<le> length xs"
        by (cases k) auto
      with k show ?thesis by auto
    qed
  next
    assume "?P 1 (x # xs) \<or> (\<exists>k \<in> {1..length xs}. ?P (Suc k) (x # xs))"
    then show "\<exists>k \<in> {1..length (x # xs)}. ?P k (x # xs)"
    proof
      assume "?P 1 (x # xs)"
      then show ?thesis by (intro bexI [of _ 1]) auto
    next
      assume "\<exists>k \<in> {1..length xs}. ?P (Suc k) (x # xs)"
      then obtain j where "j \<in> {1..length xs}" "?P (Suc j) (x # xs)" by blast
      then show ?thesis by (intro bexI [of _ "Suc j"]) auto
    qed
  qed
  with Cons.IH show ?case by auto
qed

lemma matches_atoms_segment: "matches (map atom_of n) s = segment_matches n s"
proof (induction n arbitrary: s)
  case Nil
  then show ?case by simp
next
  case (Cons p ps)
  show ?case
  proof (cases "p = CHR ''*''")
    case True
    then show ?thesis
      using Cons.IH matches_segment [of "map atom_of ps" s] by (simp add: atom_of_star)
  next
    case False
    then show ?thesis
      using Cons.IH by (cases s) (simp_all add: atom_of_other)
  qed
qed

lemma routify_users:
  "routify ''/users/*'' =
     Some [Lit CHR ''/'', Lit CHR ''u'', Lit CHR ''s'', Lit CHR ''e'', Lit CHR ''r'',
           Lit CHR ''s'', Lit CHR ''/'', NotSlashPlus]"
  by (simp add: routify_def RegExp_def backslash_def syntax_characters_def)

text \<open>
  C6, as the claim states it, fails: the route \<^verbatim>\<open>.\<close> compiles to the regular
  expression \<^verbatim>\<open>^.$\<close>, whose dot is not matched literally, so the compiled pattern
  matches the candidate \<^verbatim>\<open>x\<close>.
\<close>

theorem routify_dot_not_literal:
  "routify ''.'' = Some [AnyChar] \<and> matches [AnyChar] ''x'' \<and> \<not> segment_matches ''.'' ''x''"
  by (simp add: routify_def RegExp_def backslash_def syntax_characters_def line_terminator_def)

text \<open>
  C6, amended: for every route string with no character of regular-expression syntax
  other than the star, \<^verbatim>\<open>routify\<close> yields an anchored matcher of the whole candidate
  in which each star matches exactly one path segment (one or more characters other
  than the slash) and every other character is matched literally; and the pattern of
  \<^verbatim>\<open>/users/*\<close> matches \<^verbatim>\<open>/users/42\<close> and matches neither \<^verbatim>\<open>/users/42/x\<close> nor
  \<^verbatim>\<open>/users\<close>.
\<close>

theorem routify_segment_semantics:
  "(plain_route n \<longrightarrow>
      (\<exists>rx. routify n = Some rx \<and> (\<forall>s. matches rx s = segment_matches n s))) \<and>
   (\<exists>rx. routify ''/users/*'' = Some rx \<and> matches rx ''/users/42'' \<and>
      \<not> matches rx ''/users/42/x'' \<and> \<not> matches rx ''/users'')"
proof (intro conjI impI)
  assume "plain_route n"
  then show "\<exists>rx. routify n = Some rx \<and> (\<forall>s. matches rx s = segment_matches n s)"
    using routify_plain [of n] matches_atoms_segment [of n] by simp
next
  show "\<exists>rx. routify ''/users/*'' = Some rx \<and> matches rx ''/users/42'' \<and>
     \<not> matches rx ''/users/42/x'' \<and> \<not> matches rx ''/users''"
    using routify_users by simp
qed

theorem routify_segment_semantics_witness:
  "plain_route ''/items/*'' \<and>
   (\<exists>rx. routify ''/items/*'' = Some rx \<and> matches rx ''/items/5'' \<and> \<not> matches rx ''/items/'')"
proof -
  have plain: "plain_route ''/items/*''"
    by (simp add: plain_route_def syntax_characters_def backslash_def)
  with routify_segment_semantics [of "''/items/*''"]
  obtain rx where rx: "routify ''/items/*'' = Some rx"
    and sem: "\<And>s. matches rx s = segment_matches ''/items/*'' s"
    by blast
  have "segment_matches ''/items/*'' ''/items/5''"
    by simp
  moreover have "\<not> segment_matches ''/items/*'' ''/items/''"
    by simp
  ultimately show ?thesis
    using plain rx sem by simp
qed

section \<open>The retry ceiling\<close>

lemma failed_attempt_retry:
  assumes "connectionsAttemp st < 10" "timers st = []"
  shows "connectionsAttemp (failed_attempt st) = Suc (connectionsAttemp st)"
    and "timers (failed_attempt st) = []"
    and "connection_query (failed_attempt st) = connection_query st"
    and "trace (failed_attempt st) = trace st @ [SetTimeout 1000, NewWebSocket (connection_query st)]"
  using assms
  by (simp_all add: failed_attempt_def socket_closed_def reconnect_def timer_fired_def connect_def)

lemma failed_attempt_give_up:
  assumes "10 \<le> connectionsAttemp st" "timers st = []"
  shows "connectionsAttemp (failed_attempt st) = connectionsAttemp st"
    and "timers (failed_attempt st) = []"
    and "connection_query (failed_attempt st) = connection_query st"
    and "trace (failed_attempt st) = trace st @ [ConsoleLogText (give_up_text (connection_query st))]"
  using assms
  by (simp_all add: failed_attempt_def socket_closed_def reconnect_def timer_fired_def give_up_text_def)

lemma WebSocketRouter_fields:
  "connectionsAttemp (WebSocketRouter q c) = 1"
  "timers (WebSocketRouter q c) = []"
  "connection_query (WebSocketRouter q c) = q"
  "trace (WebSocketRouter q c) = [NewWebSocket q]"
  by (simp_all add: WebSocketRouter_def connect_def)

lemma retries:
  "n \<le> 9 \<Longrightarrow>
     connectionsAttemp ((failed_attempt ^^ n) (WebSocketRouter q c)) = Suc n \<and>
     timers ((failed_attempt ^^ n) (WebSocketRouter q c)) = [] \<and>
     connection_query ((failed_attempt ^^ n) (WebSocketRouter q c)) = q \<and>
     trace ((failed_attempt ^^ n) (WebSocketRouter q c)) =
       NewWebSocket q # concat (replicate n [SetTimeout 1000, NewWebSocket q])"
proof (induction n)
  case 0
  show ?case by (simp add: WebSocketRouter_fields)
next
  case (Suc n)
  let ?st = "(failed_attempt ^^ n) (WebSocketRouter q c)"
  from Suc have ih: "connectionsAttemp ?st = Suc n" "timers ?st = []" "connection_query ?st = q"
    "trace ?st = NewWebSocket q # concat (replicate n [SetTimeout 1000, NewWebSocket q])"
    by simp_all
  from Suc.prems ih have small: "connectionsAttemp ?st < 10" by simp
  have rep: "concat (replicate n [SetTimeout 1000, NewWebSocket q]) @ [SetTimeout 1000, NewWebSocket q]
      = concat (replicate (Suc n) [SetTimeout 1000, NewWebSocket q])"
    by (metis append_Nil2 concat.simps(1) concat.simps(2) concat_append replicate_Suc replicate_append_same)
  show ?case
    using failed_attempt_retry [OF small ih(2)] ih rep by simp
qed

lemma exhausted:
  "connectionsAttemp ((failed_attempt ^^ k) ((failed_attempt ^^ 9) (WebSocketRouter q c))) = 10 \<and>
   timers ((failed_attempt ^^ k) ((failed_attempt ^^ 9) (WebSocketRouter q c))) = [] \<and>
   connection_query ((failed_attempt ^^ k) ((failed_attempt ^^ 9) (WebSocketRouter q c))) = q \<and>
   trace ((failed_attempt ^^ k) ((failed_attempt ^^ 9) (WebSocketRouter q c))) =
     NewWebSocket q # concat (replicate 9 [SetTimeout 1000, NewWebSocket q]) @
       replicate k (ConsoleLogText (give_up_text q))"
proof (induction k)
  case 0
  show ?case using retries [of 9 q c] by simp
next
  case (Suc k)
  let ?st = "(failed_attempt ^^ k) ((failed_attempt ^^ 9) (WebSocketRouter q c))"
  from Suc have ih: "connectionsAttemp ?st = 10" "timers ?st = []" "connection_query ?st = q"
    "trace ?st = NewWebSocket q # concat (replicate 9 [SetTimeout 1000, NewWebSocket q]) @
       replicate k (ConsoleLogText (give_up_text q))"
    by simp_all
  have big: "10 \<le> connectionsAttemp ?st" using ih by simp
  have "replicate k (ConsoleLogText (give_up_text q)) @ [ConsoleLogText (give_up_text q)]
     = replicate (Suc k) (ConsoleLogText (give_up_text q))"
    by (simp add: replicate_append_same)
  then show ?case
    using failed_attempt_give_up [OF big ih(2)] ih by simp
qed

lemma count_retries:
  "length (filter (\<lambda>e. case e of NewWebSocket q \<Rightarrow> True | _ \<Rightarrow> False)
     (concat (replicate m [SetTimeout 1000, NewWebSocket q]))) = m"
  by (induction m) simp_all

lemma count_logs:
  "filter (\<lambda>e. case e of NewWebSocket q \<Rightarrow> True | _ \<Rightarrow> False) (replicate m (ConsoleLogText t)) = []"
  by (induction m) simp_all

lemma connect_calls_count:
  "connect_calls ((failed_attempt ^^ n) (WebSocketRouter q c)) = min (Suc n) 10"
proof (cases "n \<le> 9")
  case True
  with retries [OF True, of q c] show ?thesis
    by (simp add: connect_calls_def count_retries)
next
  case False
  then obtain k where n: "n = k + 9" using le_Suc_ex [of 9 n] by auto
  have "(failed_attempt ^^ n) (WebSocketRouter q c) =
      (failed_attempt ^^ k) ((failed_attempt ^^ 9) (WebSocketRouter q c))"
    unfolding n by (simp only: funpow_add o_apply)
  then show ?thesis
    using exhausted [of k q c] n by (simp add: connect_calls_def count_retries count_logs)
qed

text \<open>
  C2: when every attempt ends in a close before the socket opens, \<^verbatim>\<open>connect\<close> is
  called exactly 10 times: the first call by the constructor, each later one by a
  timer of 1000 ms that \<^verbatim>\<open>reconnect\<close> set at the close of the attempt before. The
  close of the tenth attempt sets no timer and logs, so there is no eleventh call,
  however often the socket is reported closed afterwards. In any state, \<^verbatim>\<open>reconnect\<close>
  sets a timer of 1000 ms while \<^verbatim>\<open>connectionsAttemp\<close> is below 10, and sets none once
  it has reached 10.
\<close>

theorem retry_ceiling:
  "connect_calls ((failed_attempt ^^ n) (WebSocketRouter q c)) = min (Suc n) 10 \<and>
   trace ((failed_attempt ^^ (k + 9)) (WebSocketRouter q c)) =
     NewWebSocket q # concat (replicate 9 [SetTimeout 1000, NewWebSocket q]) @
       replicate k (ConsoleLogText (give_up_text q)) \<and>
   timers ((failed_attempt ^^ (k + 9)) (WebSocketRouter q c)) = [] \<and>
   connectionsAttemp ((failed_attempt ^^ (k + 9)) (WebSocketRouter q c)) = 10 \<and>
   (connectionsAttemp st < 10 \<longrightarrow>
      timers (reconnect st) = timers st @ [1000] \<and>
      trace (reconnect st) = trace st @ [SetTimeout 1000]) \<and>
   (10 \<le> connectionsAttemp st' \<longrightarrow>
      timers (reconnect st') = timers st' \<and>
      trace (reconnect st') = trace st' @ [ConsoleLogText (give_up_text (connection_query st'))])"
proof -
  have split: "(failed_attempt ^^ (k + 9)) (WebSocketRouter q c) =
      (failed_attempt ^^ k) ((failed_attempt ^^ 9) (WebSocketRouter q c))"
    by (simp only: funpow_add o_apply)
  show ?thesis
    using connect_calls_count [of n q c] exhausted [of k q c]
    unfolding split by (simp add: reconnect_def)
qed

theorem retry_ceiling_witness:
  "connectionsAttemp (WebSocketRouter ''ws://localhost:8080'' JUndefined) < 10 \<and>
   timers (reconnect (WebSocketRouter ''ws://localhost:8080'' JUndefined)) = [1000] \<and>
   10 \<le> connectionsAttemp ((failed_attempt ^^ 9) (WebSocketRouter ''ws://localhost:8080'' JUndefined)) \<and>
   timers (reconnect ((failed_attempt ^^ 9) (WebSocketRouter ''ws://localhost:8080'' JUndefined))) = [] \<and>
   connect_calls ((failed_attempt ^^ 12) (WebSocketRouter ''ws://localhost:8080'' JUndefined)) = 10"
proof -
  let ?st = "WebSocketRouter ''ws://localhost:8080'' JUndefined"
  have low: "connectionsAttemp ?st < 10" and none: "timers ?st = []"
    by (simp_all add: WebSocketRouter_fields)
  have high: "10 \<le> connectionsAttemp ((failed_attempt ^^ 9) ?st)"
    and none': "timers ((failed_attempt ^^ 9) ?st) = []"
    using retry_ceiling [of 0 "''ws://localhost:8080''" JUndefined 0] by simp_all
  show ?thesis
    using low none high none'
      retry_ceiling [of 12 "''ws://localhost:8080''" JUndefined 0 ?st "(failed_attempt ^^ 9) ?st"]
    by simp
qed

section \<open>Hooks around an outbound message\<close>

lemma shouldTaskExecute_selected:
  "ToString (route d) = Inr s \<Longrightarrow>
     shouldTaskExecute d t pos = Inr (task_position t = pos \<and> matches (task_route t) s)"
  by (auto simp add: shouldTaskExecute_def exec_def)

lemma executeTaks_loop_returns:
  "ToString (route d) = Inr s \<Longrightarrow>
   list_all (returns (ctx st) d) (selected_tasks pos s ts) \<Longrightarrow>
     executeTaks_loop ts d pos st =
       Inr (st\<lparr>trace := trace st @ task_runs d (selected_tasks pos s ts)\<rparr>)"
proof (induction ts arbitrary: st)
  case Nil
  then show ?case by (simp add: selected_tasks_def task_runs_def)
next
  case (Cons t ts)
  show ?case
  proof (cases "task_position t = pos \<and> matches (task_route t) s")
    case True
    then have sel: "selected_tasks pos s (t # ts) = t # selected_tasks pos s ts"
      by (simp add: selected_tasks_def)
    let ?st' = "st\<lparr>trace := trace st @ [TaskRun (label (task_fn t)) d]\<rparr>"
    from Cons.prems sel have "returns (ctx st) d t"
      and rest: "list_all (returns (ctx ?st') d) (selected_tasks pos s ts)"
      by simp_all
    then have ret: "body (task_fn t) (ctx st) d = None"
      by (simp add: returns_def)
    have "executeTaks_loop (t # ts) d pos st = executeTaks_loop ts d pos ?st'"
      using True ret shouldTaskExecute_selected [OF Cons.prems(1), of t pos] by simp
    also have "\<dots> = Inr (?st'\<lparr>trace := trace ?st' @ task_runs d (selected_tasks pos s ts)\<rparr>)"
      using Cons.IH [OF Cons.prems(1) rest] .
    finally show ?thesis
      by (simp add: sel task_runs_def)
  next
    case False
    then have sel: "selected_tasks pos s (t # ts) = selected_tasks pos s ts"
      by (auto simp add: selected_tasks_def)
    have "executeTaks_loop (t # ts) d pos st = executeTaks_loop ts d pos st"
      using False shouldTaskExecute_selected [OF Cons.prems(1), of t pos] by auto
    then show ?thesis
      using Cons.IH [OF Cons.prems(1)] Cons.prems(2) sel by simp
  qed
qed

lemma executeTaks_loop_throws:
  "ToString (route d) = Inr s \<Longrightarrow>
   selected_tasks pos s ts = pre @ t # post \<Longrightarrow>
   list_all (returns (ctx st) d) pre \<Longrightarrow>
   body (task_fn t) (ctx st) d = Some stack \<Longrightarrow>
     executeTaks_loop ts d pos st =
       Inl (ErrorObject stack, st\<lparr>trace := trace st @ task_runs d (pre @ [t])\<rparr>)"
proof (induction ts arbitrary: st pre)
  case Nil
  then show ?case by (simp add: selected_tasks_def)
next
  case (Cons u ts)
  show ?case
  proof (cases "task_position u = pos \<and> matches (task_route u) s")
    case True
    then have sel: "u # selected_tasks pos s ts = pre @ t # post"
      using Cons.prems(2) by (simp add: selected_tasks_def)
    let ?st' = "st\<lparr>trace := trace st @ [TaskRun (label (task_fn u)) d]\<rparr>"
    have should: "shouldTaskExecute d u pos = Inr True"
      using True shouldTaskExecute_selected [OF Cons.prems(1), of u pos] by simp
    show ?thesis
    proof (cases pre)
      case Nil
      with sel have "u = t" by simp
      with Nil Cons.prems(4) should show ?thesis
        by (simp add: task_runs_def)
    next
      case (Cons p pre')
      with sel have p: "p = u" and rest: "selected_tasks pos s ts = pre' @ t # post"
        by simp_all
      from Cons.prems(3) Cons p have "returns (ctx st) d u"
        and ret': "list_all (returns (ctx ?st') d) pre'"
        by simp_all
      then have ret: "body (task_fn u) (ctx st) d = None"
        by (simp add: returns_def)
      have thr: "body (task_fn t) (ctx ?st') d = Some stack"
        using Cons.prems(4) by simp
      have "executeTaks_loop (u # ts) d pos st = executeTaks_loop ts d pos ?st'"
        using should ret by simp
      also have "\<dots> = Inl (ErrorObject stack, ?st'\<lparr>trace := trace ?st' @ task_runs d (pre' @ [t])\<rparr>)"
        using Cons.IH [OF Cons.prems(1) rest ret' thr] .
      finally show ?thesis
        using Cons p by (simp add: task_runs_def)
    qed
  next
    case False
    then have sel: "selected_tasks pos s ts = pre @ t # post"
      using Cons.prems(2) by (auto simp add: selected_tasks_def)
    have "executeTaks_loop (u # ts) d pos st = executeTaks_loop ts d pos st"
      using False shouldTaskExecute_selected [OF Cons.prems(1), of u pos] by auto
    then show ?thesis
      using Cons.IH [OF Cons.prems(1) sel Cons.prems(3) Cons.prems(4)] by simp
  qed
qed

lemma ConnectionHandler_send_cases:
  "ConnectionHandler_send d st =
     (if \<not> serializable_msg d \<or> readyState st = 0 then st\<lparr>messageQueue := messageQueue st @ [d]\<rparr>
      else if readyState st = 1 then st\<lparr>trace := trace st @ [Transmit d]\<rparr>
      else st)"
  by (simp add: ConnectionHandler_send_def transport_send_def)

lemma ConnectionHandler_send_fields:
  "same_tables st (ConnectionHandler_send d st)"
  "readyState (ConnectionHandler_send d st) = readyState st"
  by (simp_all add: ConnectionHandler_send_cases same_tables_def)

lemma executeTaks_loop_tables:
  "case executeTaks_loop ts d pos st of
     Inl (e, st') \<Rightarrow> same_tables st st'
   | Inr st' \<Rightarrow> same_tables st st'"
proof (induction ts arbitrary: st)
  case Nil
  show ?case by (simp add: same_tables_def)
next
  case (Cons t ts)
  let ?st' = "st\<lparr>trace := trace st @ [TaskRun (label (task_fn t)) d]\<rparr>"
  show ?case
    using Cons.IH [of st] Cons.IH [of ?st']
    by (auto simp add: same_tables_def Let_def split: sum.splits bool.splits option.splits)
qed

lemma executeTaks_tables:
  "executeTaks d pos st = Inr st' \<Longrightarrow> same_tables st st'"
  "executeTaks d pos st = Inl (e, st') \<Longrightarrow> same_tables st st'"
  using executeTaks_loop_tables [where ts = "registeredTasks st" and d = d and pos = pos and st = st]
  by (simp_all add: executeTaks_def)

lemma Router_send_tables: "same_tables st (Router_send d st)"
proof -
  have trans: "same_tables a b \<Longrightarrow> same_tables b c \<Longrightarrow> same_tables a c" for a b c
    by (simp add: same_tables_def)
  have log: "same_tables a (console_log e a)" for a e
    by (simp add: same_tables_def console_log_def)
  show ?thesis
  proof (cases "executeTaks d BEFORE st")
    case (Inl p)
    then obtain e st1 where p: "p = (e, st1)" by (cases p)
    with Inl have "same_tables st st1"
      using executeTaks_tables(2) by simp
    with Inl p show ?thesis
      using trans log by (auto simp add: Router_send_def)
  next
    case (Inr st1)
    then have a: "same_tables st st1"
      using executeTaks_tables(1) by simp
    let ?st2 = "ConnectionHandler_send d st1"
    have b: "same_tables st ?st2"
      using a ConnectionHandler_send_fields(1) [of st1 d] trans by blast
    show ?thesis
    proof (cases "executeTaks d AFTER ?st2")
      case (Inl p)
      then obtain e st3 where p: "p = (e, st3)" by (cases p)
      with Inl have "same_tables ?st2 st3"
        using executeTaks_tables(2) by simp
      with Inl p Inr b show ?thesis
        using trans [OF b] trans log by (auto simp add: Router_send_def)
    next
      case (Inr st3)
      then have "same_tables ?st2 st3"
        using executeTaks_tables(1) by simp
      with Inr \<open>executeTaks d BEFORE st = Inr st1\<close> b show ?thesis
        using trans by (auto simp add: Router_send_def)
    qed
  qed
qed


lemma executeTaks_loop_ToString_throws:
  "ToString (route d) = Inl e \<Longrightarrow>
     executeTaks_loop ts d pos st =
       (if list_ex (\<lambda>t. task_position t = pos) ts then Inl (e, st) else Inr st)"
  by (induction ts) (auto simp add: shouldTaskExecute_def exec_def)

lemma Router_send_returns:
  assumes s: "ToString (route d) = Inr s"
    and before: "list_all (returns (ctx st) d) (selected_tasks BEFORE s (registeredTasks st))"
    and after: "list_all (returns (ctx st) d) (selected_tasks AFTER s (registeredTasks st))"
  shows "Router_send d st =
     (let st1 = st\<lparr>trace := trace st @ task_runs d (selected_tasks BEFORE s (registeredTasks st))\<rparr>;
          st2 = ConnectionHandler_send d st1
      in st2\<lparr>trace := trace st2 @ task_runs d (selected_tasks AFTER s (registeredTasks st))\<rparr>)"
proof -
  let ?st1 = "st\<lparr>trace := trace st @ task_runs d (selected_tasks BEFORE s (registeredTasks st))\<rparr>"
  let ?st2 = "ConnectionHandler_send d ?st1"
  have b: "executeTaks d BEFORE st = Inr ?st1"
    using executeTaks_loop_returns [OF s before] by (simp add: executeTaks_def)
  have tabs: "registeredTasks ?st2 = registeredTasks st" "ctx ?st2 = ctx st"
    using ConnectionHandler_send_fields(1) [of ?st1 d] by (simp_all add: same_tables_def)
  have "list_all (returns (ctx ?st2) d) (selected_tasks AFTER s (registeredTasks ?st2))"
    using after tabs by simp
  from executeTaks_loop_returns [OF s this]
  have a: "executeTaks d AFTER ?st2 =
      Inr (?st2\<lparr>trace := trace ?st2 @ task_runs d (selected_tasks AFTER s (registeredTasks st))\<rparr>)"
    using tabs by (simp add: executeTaks_def)
  show ?thesis
    using a b by (simp add: Router_send_def Let_def)
qed

lemma Router_send_before_throws:
  assumes s: "ToString (route d) = Inr s"
    and sel: "selected_tasks BEFORE s (registeredTasks st) = pre @ t # post"
    and pre: "list_all (returns (ctx st) d) pre"
    and thr: "body (task_fn t) (ctx st) d = Some stack"
  shows "Router_send d st =
     st\<lparr>trace := trace st @ task_runs d (pre @ [t]) @ [ConsoleLogError (ErrorObject stack)]\<rparr>"
  using executeTaks_loop_throws [OF s sel pre thr]
  by (simp add: Router_send_def executeTaks_def console_log_def)

lemma Router_send_after_throws:
  assumes s: "ToString (route d) = Inr s"
    and before: "list_all (returns (ctx st) d) (selected_tasks BEFORE s (registeredTasks st))"
    and sel: "selected_tasks AFTER s (registeredTasks st) = pre @ t # post"
    and pre: "list_all (returns (ctx st) d) pre"
    and thr: "body (task_fn t) (ctx st) d = Some stack"
  shows "Router_send d st =
     (let st1 = st\<lparr>trace := trace st @ task_runs d (selected_tasks BEFORE s (registeredTasks st))\<rparr>;
          st2 = ConnectionHandler_send d st1
      in st2\<lparr>trace := trace st2 @ task_runs d (pre @ [t]) @ [ConsoleLogError (ErrorObject stack)]\<rparr>)"
proof -
  let ?st1 = "st\<lparr>trace := trace st @ task_runs d (selected_tasks BEFORE s (registeredTasks st))\<rparr>"
  let ?st2 = "ConnectionHandler_send d ?st1"
  have b: "executeTaks d BEFORE st = Inr ?st1"
    using executeTaks_loop_returns [OF s before] by (simp add: executeTaks_def)
  have tabs: "registeredTasks ?st2 = registeredTasks st" "ctx ?st2 = ctx st"
    using ConnectionHandler_send_fields(1) [of ?st1 d] by (simp_all add: same_tables_def)
  have sel': "selected_tasks AFTER s (registeredTasks ?st2) = pre @ t # post"
    and pre': "list_all (returns (ctx ?st2) d) pre"
    and thr': "body (task_fn t) (ctx ?st2) d = Some stack"
    using sel pre thr tabs by simp_all
  have a: "executeTaks d AFTER ?st2 =
      Inl (ErrorObject stack, ?st2\<lparr>trace := trace ?st2 @ task_runs d (pre @ [t])\<rparr>)"
    using executeTaks_loop_throws [OF s sel' pre' thr'] by (simp add: executeTaks_def)
  show ?thesis
    using a b by (simp add: Router_send_def Let_def console_log_def)
qed

lemma Router_send_ToString_throws:
  assumes "ToString (route d) = Inl e"
  shows "Router_send d st =
     (if list_ex (\<lambda>t. task_position t = BEFORE) (registeredTasks st) then console_log e st
      else if list_ex (\<lambda>t. task_position t = AFTER) (registeredTasks st)
        then console_log e (ConnectionHandler_send d st)
        else ConnectionHandler_send d st)"
proof -
  have tabs: "registeredTasks (ConnectionHandler_send d st) = registeredTasks st"
    using ConnectionHandler_send_fields(1) [of st d] by (simp add: same_tables_def)
  show ?thesis
    using executeTaks_loop_ToString_throws [OF assms] tabs
    by (simp add: Router_send_def executeTaks_def)
qed


lemma room_facts:
  "ToString (route room_message) = Inr ''/r/7''"
  "serializable_msg room_message"
  "matches room_pattern ''/r/7''"
  "ctx open_router = JUndefined"
  "readyState open_router = 1"
  "messageQueue open_router = []"
  "trace open_router = [NewWebSocket ''ws://localhost:8080'']"
  by (simp_all add: room_message_def room_pattern_def serializable_msg_def open_router_def
      WebSocketRouter_def connect_def)

text \<open>
  C7: \<^verbatim>\<open>Router.send\<close> runs the BEFORE tasks whose pattern matches the route of the
  message, in registration order, then performs the send of the ConnectionHandler, then
  runs the matching AFTER tasks. No failure leaves \<^verbatim>\<open>Router.send\<close>: its result is a
  state in every case. When a BEFORE task throws, the result is the state at the throw
  with the error logged: the send and the AFTER tasks have not run. When an AFTER task
  throws, the result keeps what the send did. When the route cannot be converted to a
  string, the TypeError is logged at the first task of the current position.
\<close>

theorem send_hook_wrapping:
  "(ToString (route d) = Inr s \<and>
    list_all (returns (ctx st) d) (selected_tasks BEFORE s (registeredTasks st)) \<and>
    list_all (returns (ctx st) d) (selected_tasks AFTER s (registeredTasks st)) \<longrightarrow>
      Router_send d st =
        (let st1 = st\<lparr>trace := trace st @
                     task_runs d (selected_tasks BEFORE s (registeredTasks st))\<rparr>;
             st2 = ConnectionHandler_send d st1
         in st2\<lparr>trace := trace st2 @
                  task_runs d (selected_tasks AFTER s (registeredTasks st))\<rparr>)) \<and>
   (ToString (route d) = Inr s \<and>
    selected_tasks BEFORE s (registeredTasks st) = pre @ t # post \<and>
    list_all (returns (ctx st) d) pre \<and> body (task_fn t) (ctx st) d = Some stack \<longrightarrow>
      Router_send d st =
        st\<lparr>trace := trace st @ task_runs d (pre @ [t]) @ [ConsoleLogError (ErrorObject stack)]\<rparr>) \<and>
   (ToString (route d) = Inr s \<and>
    list_all (returns (ctx st) d) (selected_tasks BEFORE s (registeredTasks st)) \<and>
    selected_tasks AFTER s (registeredTasks st) = pre @ t # post \<and>
    list_all (returns (ctx st) d) pre \<and> body (task_fn t) (ctx st) d = Some stack \<longrightarrow>
      Router_send d st =
        (let st1 = st\<lparr>trace := trace st @
                     task_runs d (selected_tasks BEFORE s (registeredTasks st))\<rparr>;
             st2 = ConnectionHandler_send d st1
         in st2\<lparr>trace := trace st2 @ task_runs d (pre @ [t]) @
                  [ConsoleLogError (ErrorObject stack)]\<rparr>)) \<and>
   (ToString (route d) = Inl e \<longrightarrow>
      Router_send d st =
        (if list_ex (\<lambda>t. task_position t = BEFORE) (registeredTasks st) then console_log e st
         else if list_ex (\<lambda>t. task_position t = AFTER) (registeredTasks st)
           then console_log e (ConnectionHandler_send d st)
           else ConnectionHandler_send d st))"
  using Router_send_returns [of d s st] Router_send_before_throws [of d s st pre t post stack]
    Router_send_after_throws [of d s st pre t post stack] Router_send_ToString_throws [of d e st]
  by blast

theorem send_hook_wrapping_witness:
  "trace (Router_send room_message (open_router\<lparr>registeredTasks := hooks_quiet\<rparr>)) =
     [NewWebSocket ''ws://localhost:8080'', TaskRun ''b1'' room_message,
      TaskRun ''b2'' room_message, Transmit room_message, TaskRun ''a1'' room_message] \<and>
   trace (Router_send room_message (open_router\<lparr>registeredTasks := hooks_before_fails\<rparr>)) =
     [NewWebSocket ''ws://localhost:8080'', TaskRun ''b1'' room_message,
      TaskRun ''b2'' room_message, ConsoleLogError (ErrorObject ''Error: b2'')] \<and>
   messageQueue (Router_send room_message (open_router\<lparr>registeredTasks := hooks_before_fails\<rparr>)) = [] \<and>
   trace (Router_send room_message (open_router\<lparr>registeredTasks := hooks_after_fails\<rparr>)) =
     [NewWebSocket ''ws://localhost:8080'', TaskRun ''b1'' room_message,
      Transmit room_message, TaskRun ''a1'' room_message,
      ConsoleLogError (ErrorObject ''Error: a1'')] \<and>
   trace (Router_send odd_route_message (open_router\<lparr>registeredTasks := hooks_quiet\<rparr>)) =
     [NewWebSocket ''ws://localhost:8080'', ConsoleLogError TypeError]"
proof -
  let ?q = "open_router\<lparr>registeredTasks := hooks_quiet\<rparr>"
  let ?b = "open_router\<lparr>registeredTasks := hooks_before_fails\<rparr>"
  let ?a = "open_router\<lparr>registeredTasks := hooks_after_fails\<rparr>"
  have sel_q: "selected_tasks BEFORE ''/r/7'' hooks_quiet =
        [room_task BEFORE (quiet ''b1''), room_task BEFORE (quiet ''b2'')]"
      "selected_tasks AFTER ''/r/7'' hooks_quiet = [room_task AFTER (quiet ''a1'')]"
    using room_facts(3) by (simp_all add: selected_tasks_def hooks_quiet_def room_task_def)
  have sel_b: "selected_tasks BEFORE ''/r/7'' hooks_before_fails =
        [room_task BEFORE (quiet ''b1'')] @ room_task BEFORE (failing ''b2'' ''Error: b2'') # []"
    using room_facts(3) by (simp add: selected_tasks_def hooks_before_fails_def room_task_def)
  have sel_a: "selected_tasks BEFORE ''/r/7'' hooks_after_fails = [room_task BEFORE (quiet ''b1'')]"
      "selected_tasks AFTER ''/r/7'' hooks_after_fails =
        [] @ room_task AFTER (failing ''a1'' ''Error: a1'') # [room_task AFTER (quiet ''a2'')]"
    using room_facts(3) by (simp_all add: selected_tasks_def hooks_after_fails_def room_task_def)
  have ret: "returns c d (room_task pos (quiet l))" for c d pos l
    by (simp add: returns_def room_task_def quiet_def)
  have thr: "body (task_fn (room_task pos (failing l x))) c d = Some x" for c d pos l x
    by (simp add: room_task_def failing_def)
  have lab: "label (task_fn (room_task pos (quiet l))) = l"
    "label (task_fn (room_task pos (failing l x))) = l" for pos l x
    by (simp_all add: room_task_def quiet_def failing_def)
  have one: "trace (Router_send room_message ?q) =
     [NewWebSocket ''ws://localhost:8080'', TaskRun ''b1'' room_message,
      TaskRun ''b2'' room_message, Transmit room_message, TaskRun ''a1'' room_message]"
    using send_hook_wrapping [where d = room_message and s = "''/r/7''" and st = ?q]
      room_facts sel_q ret
    by (simp add: ConnectionHandler_send_cases task_runs_def lab Let_def)
  have two: "Router_send room_message ?b =
      ?b\<lparr>trace := trace ?b @
        task_runs room_message ([room_task BEFORE (quiet ''b1'')] @
          [room_task BEFORE (failing ''b2'' ''Error: b2'')]) @
        [ConsoleLogError (ErrorObject ''Error: b2'')]\<rparr>"
    using send_hook_wrapping [where d = room_message and s = "''/r/7''" and st = ?b
        and pre = "[room_task BEFORE (quiet ''b1'')]"
        and t = "room_task BEFORE (failing ''b2'' ''Error: b2'')" and post = "[]"
        and stack = "''Error: b2''"]
      room_facts sel_b ret thr
    by simp
  have three: "trace (Router_send room_message ?a) =
     [NewWebSocket ''ws://localhost:8080'', TaskRun ''b1'' room_message,
      Transmit room_message, TaskRun ''a1'' room_message,
      ConsoleLogError (ErrorObject ''Error: a1'')]"
    using send_hook_wrapping [where d = room_message and s = "''/r/7''" and st = ?a
        and pre = "[]" and t = "room_task AFTER (failing ''a1'' ''Error: a1'')"
        and post = "[room_task AFTER (quiet ''a2'')]" and stack = "''Error: a1''"]
      room_facts sel_a ret thr
    by (simp add: ConnectionHandler_send_cases task_runs_def lab Let_def)
  have four: "trace (Router_send odd_route_message ?q) =
     [NewWebSocket ''ws://localhost:8080'', ConsoleLogError TypeError]"
    using send_hook_wrapping [where d = odd_route_message and e = TypeError and st = ?q]
      room_facts
    by (simp add: odd_route_message_def hooks_quiet_def room_task_def console_log_def)
  show ?thesis
    using one two three four room_facts by (simp add: task_runs_def lab)
qed

lemma transmitted_task_runs:
  "concat (map (\<lambda>e. case e of Transmit m \<Rightarrow> [m] | _ \<Rightarrow> []) (task_runs d ts)) = []"
  by (induction ts) (simp_all add: task_runs_def)

text \<open>
  C10: when the send of the transport fails (the serialisation throws, or the socket
  is still connecting), \<^verbatim>\<open>ConnectionHandler.send\<close> absorbs the failure and puts the
  message on the queue, and \<^verbatim>\<open>Router.send\<close> goes on to run the matching AFTER tasks:
  they have run although nothing was transmitted.
\<close>

theorem after_hooks_without_delivery:
  "ToString (route d) = Inr s \<and>
   list_all (returns (ctx st) d) (selected_tasks BEFORE s (registeredTasks st)) \<and>
   list_all (returns (ctx st) d) (selected_tasks AFTER s (registeredTasks st)) \<and>
   transport_send d
     (st\<lparr>trace := trace st @ task_runs d (selected_tasks BEFORE s (registeredTasks st))\<rparr>) = Inl err \<longrightarrow>
     Router_send d st =
       st\<lparr>messageQueue := messageQueue st @ [d],
          trace := trace st @ task_runs d (selected_tasks BEFORE s (registeredTasks st)) @
            task_runs d (selected_tasks AFTER s (registeredTasks st))\<rparr> \<and>
     transmitted (Router_send d st) = transmitted st"
proof (intro impI, elim conjE)
  let ?before = "task_runs d (selected_tasks BEFORE s (registeredTasks st))"
  let ?after = "task_runs d (selected_tasks AFTER s (registeredTasks st))"
  assume s: "ToString (route d) = Inr s"
    and before: "list_all (returns (ctx st) d) (selected_tasks BEFORE s (registeredTasks st))"
    and after: "list_all (returns (ctx st) d) (selected_tasks AFTER s (registeredTasks st))"
    and fails: "transport_send d (st\<lparr>trace := trace st @ ?before\<rparr>) = Inl err"
  have eq: "Router_send d st =
      st\<lparr>messageQueue := messageQueue st @ [d], trace := trace st @ ?before @ ?after\<rparr>"
    using Router_send_returns [OF s before after] fails
    by (simp add: ConnectionHandler_send_def Let_def)
  have "transmitted (st\<lparr>messageQueue := messageQueue st @ [d], trace := trace st @ ?before @ ?after\<rparr>)
      = transmitted st"
    using transmitted_task_runs by (simp add: transmitted_def)
  with eq show "Router_send d st =
      st\<lparr>messageQueue := messageQueue st @ [d], trace := trace st @ ?before @ ?after\<rparr> \<and>
      transmitted (Router_send d st) = transmitted st"
    by simp
qed

theorem after_hooks_without_delivery_witness:
  "transport_send room_message
     ((WebSocketRouter ''ws://localhost:8080'' JUndefined)
        \<lparr>registeredTasks := hooks_quiet,
         trace := [NewWebSocket ''ws://localhost:8080'', TaskRun ''b1'' room_message,
                   TaskRun ''b2'' room_message]\<rparr>) = Inl InvalidStateError \<and>
   messageQueue (Router_send room_message
     ((WebSocketRouter ''ws://localhost:8080'' JUndefined)\<lparr>registeredTasks := hooks_quiet\<rparr>)) =
     [room_message] \<and>
   trace (Router_send room_message
     ((WebSocketRouter ''ws://localhost:8080'' JUndefined)\<lparr>registeredTasks := hooks_quiet\<rparr>)) =
     [NewWebSocket ''ws://localhost:8080'', TaskRun ''b1'' room_message,
      TaskRun ''b2'' room_message, TaskRun ''a1'' room_message] \<and>
   transmitted (Router_send room_message
     ((WebSocketRouter ''ws://localhost:8080'' JUndefined)\<lparr>registeredTasks := hooks_quiet\<rparr>)) = []"
proof -
  let ?st = "(WebSocketRouter ''ws://localhost:8080'' JUndefined)\<lparr>registeredTasks := hooks_quiet\<rparr>"
  have sel: "selected_tasks BEFORE ''/r/7'' hooks_quiet =
        [room_task BEFORE (quiet ''b1''), room_task BEFORE (quiet ''b2'')]"
      "selected_tasks AFTER ''/r/7'' hooks_quiet = [room_task AFTER (quiet ''a1'')]"
    using room_facts(3) by (simp_all add: selected_tasks_def hooks_quiet_def room_task_def)
  have ret: "returns c d (room_task pos (quiet l))" for c d pos l
    by (simp add: returns_def room_task_def quiet_def)
  have lab: "label (task_fn (room_task pos (quiet l))) = l" for pos l
    by (simp add: room_task_def quiet_def)
  have st: "readyState ?st = 0" "messageQueue ?st = []"
    "trace ?st = [NewWebSocket ''ws://localhost:8080'']" "registeredTasks ?st = hooks_quiet"
    by (simp_all add: WebSocketRouter_def connect_def)
  have fails: "transport_send room_message
      (?st\<lparr>trace := trace ?st @ task_runs room_message (selected_tasks BEFORE ''/r/7'' (registeredTasks ?st))\<rparr>)
      = Inl InvalidStateError"
    using room_facts(2) st by (simp add: transport_send_def)
  have "transmitted ?st = []"
    by (simp add: transmitted_def st)
  then show ?thesis
    using after_hooks_without_delivery [where d = room_message and s = "''/r/7''" and st = ?st
        and err = InvalidStateError]
      room_facts(1) sel ret fails st
    by (simp add: task_runs_def lab transmitted_def)
qed

section \<open>Selection of events\<close>

lemma routify_facts:
  "routify ''/items/*'' = Some items_pattern"
  "routify ''/r/*'' = Some room_pattern"
  "routify ''*'' = Some [NotSlashPlus]"
  "routify ''UPDATE'' = Some [Lit CHR ''U'', Lit CHR ''P'', Lit CHR ''D'', Lit CHR ''A'', Lit CHR ''T'', Lit CHR ''E'']"
  "routify ''ok*'' = Some [Lit CHR ''o'', Lit CHR ''k'', NotSlashPlus]"
  "routify ''ok-confirmed'' = Some (map Lit ''ok-confirmed'')"
  "routify ''/socket/error'' = Some error_pattern"
  by (simp_all add: routify_def RegExp_def backslash_def syntax_characters_def items_pattern_def
      room_pattern_def error_pattern_def)

lemma hooks_quiet_registered:
  "beforeSend ''/r/*'' (quiet ''b1'') open_router =
     Some (open_router\<lparr>registeredTasks := [room_task BEFORE (quiet ''b1'')]\<rparr>)"
  "afterSend ''/r/*'' (quiet ''a1'')
       (open_router\<lparr>registeredTasks := [room_task BEFORE (quiet ''b1'')]\<rparr>) =
     Some (open_router\<lparr>registeredTasks :=
             [room_task BEFORE (quiet ''b1''), room_task AFTER (quiet ''a1'')]\<rparr>)"
  "beforeSend ''/r/*'' (quiet ''b2'')
       (open_router\<lparr>registeredTasks :=
          [room_task BEFORE (quiet ''b1''), room_task AFTER (quiet ''a1'')]\<rparr>) =
     Some (open_router\<lparr>registeredTasks := hooks_quiet\<rparr>)"
  by (simp_all add: beforeSend_def afterSend_def registerSendTask_def routify_facts room_task_def
      hooks_quiet_def open_router_def WebSocketRouter_def connect_def)

text \<open>
  C1 states that a filter \<^verbatim>\<open>{key: pattern}\<close> is satisfied when the message's
  \<^verbatim>\<open>data[key]\<close> matches the pattern compiled from the filter's value, and that a
  missing field of the message makes the event a non-match. The code does otherwise.
  \<^verbatim>\<open>applyFilters\<close> compiles the pattern from the value of the message and runs it on
  the value of the filter: the event registered by \<^verbatim>\<open>update\<close> on \<^verbatim>\<open>/items/*\<close> with the
  filter \<^verbatim>\<open>{status: "ok*"}\<close> is not selected for the message with
  \<^verbatim>\<open>data = {status: "ok-confirmed"}\<close>, and it is selected when the two values change
  places. When the data object lacks the key, \<^verbatim>\<open>dataFilters[key].toString()\<close> throws a
  TypeError, which leaves \<^verbatim>\<open>dispatch\<close>.
\<close>

theorem filter_roles_swapped:
  "update ''/items/*'' (Single (quiet ''h'')) (Some [(''status'', JStr ''ok*'')]) open_router =
     Some (0, open_router\<lparr>events := [items_event [(''status'', JStr ''ok*'')]]\<rparr>) \<and>
   shouldEventExecute (items_message (JObj [(''status'', JStr ''ok-confirmed'')]))
     (items_event [(''status'', JStr ''ok*'')]) = Val False \<and>
   shouldEventExecute (items_message (JObj [(''status'', JStr ''ok*'')]))
     (items_event [(''status'', JStr ''ok-confirmed'')]) = Val True \<and>
   shouldEventExecute (items_message (JObj [(''id'', JStr ''5'')]))
     (items_event [(''status'', JStr ''ok*'')]) = Throw TypeError \<and>
   dispatch (items_message (JObj [(''id'', JStr ''5'')]))
     (open_router\<lparr>events := [items_event [(''status'', JStr ''ok*'')]]\<rparr>) = Throw TypeError"
proof -
  have reg: "update ''/items/*'' (Single (quiet ''h'')) (Some [(''status'', JStr ''ok*'')]) open_router =
     Some (0, open_router\<lparr>events := [items_event [(''status'', JStr ''ok*'')]]\<rparr>)"
    by (simp add: update_def on_action_def on_def routify_facts builder_action_def
        builder_filters_def update_event_def items_event_def open_router_def WebSocketRouter_def
        connect_def)
  have a: "shouldEventExecute (items_message (JObj [(''status'', JStr ''ok-confirmed'')]))
     (items_event [(''status'', JStr ''ok*'')]) = Val False"
    by (simp add: shouldEventExecute_def items_event_def items_message_def routify_facts exec_def
        applyFilters_def object_prototype_keys_def)
  have b: "shouldEventExecute (items_message (JObj [(''status'', JStr ''ok*'')]))
     (items_event [(''status'', JStr ''ok-confirmed'')]) = Val True"
    by (simp add: shouldEventExecute_def items_event_def items_message_def routify_facts exec_def
        applyFilters_def items_pattern_def object_prototype_keys_def)
  have c: "shouldEventExecute (items_message (JObj [(''id'', JStr ''5'')]))
     (items_event [(''status'', JStr ''ok*'')]) = Throw TypeError"
    by (simp add: shouldEventExecute_def items_event_def items_message_def routify_facts exec_def
        applyFilters_def object_prototype_keys_def)
  have d: "dispatch (items_message (JObj [(''id'', JStr ''5'')]))
     (open_router\<lparr>events := [items_event [(''status'', JStr ''ok*'')]]\<rparr>) = Throw TypeError"
    using c by (simp add: dispatch_def run_list_def)
  show ?thesis using reg a b c d by simp
qed

lemma room_event_selected:
  "shouldEventExecute room_message (room_event l) = Val True"
  by (simp add: shouldEventExecute_def room_event_def room_message_def routify_facts exec_def
      room_pattern_def)

lemma open_router_fields:
  "events open_router = []" "lastEvents open_router = []" "ctx open_router = JUndefined"
  "trace open_router = [NewWebSocket ''ws://localhost:8080'']"
  by (simp_all add: open_router_def WebSocketRouter_def connect_def)

lemma applyToQueue_room:
  "applyToQueue JUndefined (room_event l) run = run @ [(quiet l, JUndefined)]"
  by (simp add: applyToQueue_def room_event_def)

text \<open>
  C4 states that for events A, B (marked by \<^verbatim>\<open>executeLast\<close>) and C, registered in
  this order, a message that matches all three runs the handlers in the order A, C, B.
  On the code, the call of \<^verbatim>\<open>executeLast\<close> throws a ReferenceError and moves nothing:
  B stays in \<^verbatim>\<open>this.events\<close>, \<^verbatim>\<open>this.lastEvents\<close> stays empty, and the handlers run
  in the order A, B, C. \<^verbatim>\<open>dispatch\<close> itself scans \<^verbatim>\<open>this.events\<close> before
  \<^verbatim>\<open>this.lastEvents\<close>: with B in \<^verbatim>\<open>lastEvents\<close> the order is A, C, B.
\<close>

theorem executeLast_throws:
  "on ''/r/*'' (Single (quiet ''A'')) open_router =
     Some (0, open_router\<lparr>events := [room_event ''A'']\<rparr>) \<and>
   on ''/r/*'' (Single (quiet ''B'')) (open_router\<lparr>events := [room_event ''A'']\<rparr>) =
     Some (1, open_router\<lparr>events := [room_event ''A'', room_event ''B'']\<rparr>) \<and>
   executeLast 1 (open_router\<lparr>events := [room_event ''A'', room_event ''B'']\<rparr>) =
     Throw ReferenceError \<and>
   on ''/r/*'' (Single (quiet ''C'')) (open_router\<lparr>events := [room_event ''A'', room_event ''B'']\<rparr>) =
     Some (2, open_router\<lparr>events := [room_event ''A'', room_event ''B'', room_event ''C'']\<rparr>) \<and>
   dispatch room_message
       (open_router\<lparr>events := [room_event ''A'', room_event ''B'', room_event ''C'']\<rparr>) =
     Val (open_router
           \<lparr>events := [room_event ''A'', room_event ''B'', room_event ''C''],
            trace := [NewWebSocket ''ws://localhost:8080'',
                      HandlerRun ''A'' JUndefined (data room_message),
                      HandlerRun ''B'' JUndefined (data room_message),
                      HandlerRun ''C'' JUndefined (data room_message)]\<rparr>) \<and>
   dispatch room_message
       (open_router\<lparr>events := [room_event ''A'', room_event ''C''],
                    lastEvents := [room_event ''B'']\<rparr>) =
     Val (open_router
           \<lparr>events := [room_event ''A'', room_event ''C''], lastEvents := [room_event ''B''],
            trace := [NewWebSocket ''ws://localhost:8080'',
                      HandlerRun ''A'' JUndefined (data room_message),
                      HandlerRun ''C'' JUndefined (data room_message),
                      HandlerRun ''B'' JUndefined (data room_message)]\<rparr>)"
proof -
  have reg: "on ''/r/*'' (Single (quiet l)) (open_router\<lparr>events := es\<rparr>) =
      Some (length es, open_router\<lparr>events := es @ [room_event l]\<rparr>)" for l es
    by (simp add: on_def routify_facts room_event_def)
  have reg0: "on ''/r/*'' (Single (quiet ''A'')) open_router =
     Some (0, open_router\<lparr>events := [room_event ''A'']\<rparr>)"
    by (simp add: on_def routify_facts room_event_def open_router_fields)
  have last: "executeLast 1 (open_router\<lparr>events := [room_event ''A'', room_event ''B'']\<rparr>) =
     Throw ReferenceError"
    by (simp add: executeLast_def executeLast_scope_def)
  have d1: "dispatch room_message
       (open_router\<lparr>events := [room_event ''A'', room_event ''B'', room_event ''C'']\<rparr>) =
     Val (open_router
           \<lparr>events := [room_event ''A'', room_event ''B'', room_event ''C''],
            trace := [NewWebSocket ''ws://localhost:8080'',
                      HandlerRun ''A'' JUndefined (data room_message),
                      HandlerRun ''B'' JUndefined (data room_message),
                      HandlerRun ''C'' JUndefined (data room_message)]\<rparr>)"
    by (simp add: dispatch_def run_list_def room_event_selected applyToQueue_room runner_def quiet_def Let_def
        open_router_fields)
  have d2: "dispatch room_message
       (open_router\<lparr>events := [room_event ''A'', room_event ''C''],
                    lastEvents := [room_event ''B'']\<rparr>) =
     Val (open_router
           \<lparr>events := [room_event ''A'', room_event ''C''], lastEvents := [room_event ''B''],
            trace := [NewWebSocket ''ws://localhost:8080'',
                      HandlerRun ''A'' JUndefined (data room_message),
                      HandlerRun ''C'' JUndefined (data room_message),
                      HandlerRun ''B'' JUndefined (data room_message)]\<rparr>)"
    by (simp add: dispatch_def run_list_def room_event_selected applyToQueue_room runner_def quiet_def Let_def
        open_router_fields)
  show ?thesis
    using reg0 reg [of "''B''" "[room_event ''A'']"]
      reg [of "''C''" "[room_event ''A'', room_event ''B'']"] last d1 d2
    by simp
qed

text \<open>
  C8 states that a handler registered by \<^verbatim>\<open>intercept\<close> is selected exactly when its
  route pattern matches the route of the message, and that the dispatch completes
  without an error. On the code, the event that \<^verbatim>\<open>intercept\<close> pushes has no \<^verbatim>\<open>action\<close>,
  \<^verbatim>\<open>shouldEventExecute\<close> starts with \<^verbatim>\<open>this.routify(evt.action)\<close>, and \<^verbatim>\<open>routify\<close> of
  \<^verbatim>\<open>undefined\<close> throws a TypeError: the dispatch of a message whose route matches ends
  with that TypeError and runs no handler. The same event with the action \<^verbatim>\<open>"*"\<close>
  that \<^verbatim>\<open>on\<close> gives is selected and run.
\<close>

theorem intercept_dispatch_throws:
  "intercept ''/r/*'' (Single (quiet ''i'')) open_router =
     Some (open_router\<lparr>events := [(room_event ''i'')\<lparr>ev_action := JUndefined\<rparr>]\<rparr>) \<and>
   shouldEventExecute room_message ((room_event ''i'')\<lparr>ev_action := JUndefined\<rparr>) = Throw TypeError \<and>
   dispatch room_message
     (open_router\<lparr>events := [(room_event ''i'')\<lparr>ev_action := JUndefined\<rparr>]\<rparr>) = Throw TypeError \<and>
   dispatch room_message (open_router\<lparr>events := [room_event ''i'']\<rparr>) =
     Val (open_router
           \<lparr>events := [room_event ''i''],
            trace := [NewWebSocket ''ws://localhost:8080'',
                      HandlerRun ''i'' JUndefined (data room_message)]\<rparr>)"
proof -
  have reg: "intercept ''/r/*'' (Single (quiet ''i'')) open_router =
     Some (open_router\<lparr>events := [(room_event ''i'')\<lparr>ev_action := JUndefined\<rparr>]\<rparr>)"
    by (simp add: intercept_def routify_facts room_event_def open_router_fields)
  have thr: "shouldEventExecute room_message ((room_event ''i'')\<lparr>ev_action := JUndefined\<rparr>) =
      Throw TypeError"
    by (simp add: shouldEventExecute_def room_event_def)
  have d1: "dispatch room_message
     (open_router\<lparr>events := [(room_event ''i'')\<lparr>ev_action := JUndefined\<rparr>]\<rparr>) = Throw TypeError"
    using thr by (simp add: dispatch_def run_list_def)
  have d2: "dispatch room_message (open_router\<lparr>events := [room_event ''i'']\<rparr>) =
     Val (open_router
           \<lparr>events := [room_event ''i''],
            trace := [NewWebSocket ''ws://localhost:8080'',
                      HandlerRun ''i'' JUndefined (data room_message)]\<rparr>)"
    by (simp add: dispatch_def run_list_def room_event_selected applyToQueue_room runner_def
        quiet_def Let_def open_router_fields)
  show ?thesis
    using reg thr d1 d2 by simp
qed

section \<open>Failure of a handler\<close>

lemma throwing_event_selected:
  "shouldEventExecute room_message (throwing_event l thrown) = Val True"
  by (simp add: shouldEventExecute_def throwing_event_def room_message_def routify_facts exec_def
      room_pattern_def)

lemma applyToQueue_throwing:
  "applyToQueue JUndefined (throwing_event l thrown) run = run @ [(failing l thrown, JUndefined)]"
  by (simp add: applyToQueue_def throwing_event_def)

lemma stack_property_defined:
  "(\<exists>stack. stack_property thrown = Inr stack) = (thrown \<noteq> JUndefined \<and> thrown \<noteq> JNull)"
  by (cases thrown) simp_all

lemma runner_loop_returns:
  "list_all (handler_returns d) run \<Longrightarrow> runner_loop run d st = Inr (ran d run st)"
proof (induction run arbitrary: st)
  case Nil
  show ?case by (simp add: handler_runs_def ran_def)
next
  case (Cons entry run)
  obtain h this where entry: "entry = (h, this)" by (cases entry)
  let ?st' = "st\<lparr>trace := trace st @ [HandlerRun (label h) this d]\<rparr>"
  from Cons.prems entry have "handler_returns d (h, this)" and rest: "list_all (handler_returns d) run"
    by simp_all
  then have ret: "body h this d = None"
    by (simp add: handler_returns_def)
  have "runner_loop (entry # run) d st = runner_loop run d ?st'"
    using entry ret by simp
  then show ?case
    using Cons.IH [OF rest, of ?st'] entry by (simp add: handler_runs_def ran_def)
qed

lemma runner_loop_throws:
  "list_all (handler_returns d) pre \<Longrightarrow> body h this d = Some thrown \<Longrightarrow>
     runner_loop (pre @ (h, this) # post) d st = Inl (thrown, ran d (pre @ [(h, this)]) st)"
proof (induction pre arbitrary: st)
  case Nil
  then show ?case by (simp add: handler_runs_def ran_def)
next
  case (Cons entry pre)
  obtain g that where entry: "entry = (g, that)" by (cases entry)
  let ?st' = "st\<lparr>trace := trace st @ [HandlerRun (label g) that d]\<rparr>"
  from Cons.prems entry have "handler_returns d (g, that)" and rest: "list_all (handler_returns d) pre"
    by simp_all
  then have ret: "body g that d = None"
    by (simp add: handler_returns_def)
  have "runner_loop ((entry # pre) @ (h, this) # post) d st =
      runner_loop (pre @ (h, this) # post) d ?st'"
    using entry ret by simp
  then show ?case
    using Cons.IH [OF rest Cons.prems(2), of ?st'] entry by (simp add: handler_runs_def ran_def)
qed

lemma runner_reports:
  "list_all (handler_returns d) pre \<Longrightarrow> body h this d = Some thrown \<Longrightarrow>
   stack_property thrown = Inr stack \<Longrightarrow>
     runner (pre @ (h, this) # post) d st =
       Inr (Router_send (error_message stack) (ran d (pre @ [(h, this)]) st))"
  using runner_loop_throws [of d pre h this thrown post st]
  by (simp add: runner_def ExceptionHandler_def Router_error_def error_message_def)

lemma runner_throws:
  "list_all (handler_returns d) pre \<Longrightarrow> body h this d = Some thrown \<Longrightarrow>
   stack_property thrown = Inl e \<Longrightarrow>
     runner (pre @ (h, this) # post) d st = Inl (e, ran d (pre @ [(h, this)]) st)"
  using runner_loop_throws [of d pre h this thrown post st]
  by (simp add: runner_def ExceptionHandler_def)

lemma executeTaks_loop_observed:
  "case executeTaks_loop ts d pos st of
     Inl (e, st') \<Rightarrow> handler_trace st' = handler_trace st \<and> transmitted st' = transmitted st
   | Inr st' \<Rightarrow> handler_trace st' = handler_trace st \<and> transmitted st' = transmitted st"
proof (induction ts arbitrary: st)
  case Nil
  show ?case by simp
next
  case (Cons t ts)
  let ?st' = "st\<lparr>trace := trace st @ [TaskRun (label (task_fn t)) d]\<rparr>"
  have step: "handler_trace ?st' = handler_trace st" "transmitted ?st' = transmitted st"
    by (simp_all add: handler_trace_def transmitted_def)
  show ?case
    using Cons.IH [of st] Cons.IH [of ?st'] step
    by (auto simp add: Let_def split: sum.splits bool.splits option.splits)
qed

lemma executeTaks_observed:
  "executeTaks d pos st = Inr st' \<Longrightarrow>
     handler_trace st' = handler_trace st \<and> transmitted st' = transmitted st"
  "executeTaks d pos st = Inl (e, st') \<Longrightarrow>
     handler_trace st' = handler_trace st \<and> transmitted st' = transmitted st"
  using executeTaks_loop_observed [where ts = "registeredTasks st" and d = d and pos = pos and st = st]
  by (simp_all add: executeTaks_def)

lemma console_log_observed:
  "handler_trace (console_log e st) = handler_trace st"
  "transmitted (console_log e st) = transmitted st"
  by (simp_all add: handler_trace_def transmitted_def console_log_def)

lemma Router_send_handler_trace: "handler_trace (Router_send m st) = handler_trace st"
proof -
  have snd: "handler_trace (ConnectionHandler_send m a) = handler_trace a" for a
    by (simp add: handler_trace_def ConnectionHandler_send_cases)
  show ?thesis
  proof (cases "executeTaks m BEFORE st")
    case (Inl p)
    obtain e st1 where p: "p = (e, st1)" by (cases p)
    with Inl show ?thesis
      using executeTaks_observed(2) [of m BEFORE st e st1] console_log_observed(1)
      by (simp add: Router_send_def)
  next
    case (Inr st1)
    then have a: "handler_trace st1 = handler_trace st"
      using executeTaks_observed(1) by blast
    let ?st2 = "ConnectionHandler_send m st1"
    show ?thesis
    proof (cases "executeTaks m AFTER ?st2")
      case (Inl p)
      obtain e st3 where p: "p = (e, st3)" by (cases p)
      with Inl have "handler_trace st3 = handler_trace ?st2"
        using executeTaks_observed(2) by blast
      with Inl p Inr a snd [of st1] show ?thesis
        using console_log_observed(1) by (simp add: Router_send_def)
    next
      case after: (Inr st3)
      then have "handler_trace st3 = handler_trace ?st2"
        using executeTaks_observed(1) by blast
      with after Inr a snd [of st1] show ?thesis
        by (simp add: Router_send_def)
    qed
  qed
qed

lemma Router_send_transmits:
  assumes s: "ToString (route m) = Inr s"
    and before: "list_all (returns (ctx st) m) (selected_tasks BEFORE s (registeredTasks st))"
    and opened: "readyState st = 1"
    and ser: "serializable_msg m"
  shows "transmitted (Router_send m st) = transmitted st @ [m]"
proof -
  let ?st1 = "st\<lparr>trace := trace st @ task_runs m (selected_tasks BEFORE s (registeredTasks st))\<rparr>"
  let ?st2 = "?st1\<lparr>trace := trace ?st1 @ [Transmit m]\<rparr>"
  have b: "executeTaks m BEFORE st = Inr ?st1"
    using executeTaks_loop_returns [OF s before] by (simp add: executeTaks_def)
  have send: "ConnectionHandler_send m ?st1 = ?st2"
    using opened ser by (simp add: ConnectionHandler_send_cases)
  have t2: "transmitted ?st2 = transmitted st @ [m]"
    using transmitted_task_runs [of m "selected_tasks BEFORE s (registeredTasks st)"]
    by (simp add: transmitted_def)
  show ?thesis
  proof (cases "executeTaks m AFTER ?st2")
    case (Inl p)
    obtain e st3 where p: "p = (e, st3)" by (cases p)
    with Inl have "transmitted st3 = transmitted ?st2"
      using executeTaks_observed(2) by blast
    with Inl p b send t2 show ?thesis
      using console_log_observed(2) [of e st3] by (simp add: Router_send_def)
  next
    case (Inr st3)
    then have "transmitted st3 = transmitted ?st2"
      using executeTaks_observed(1) by blast
    with Inr b send t2 show ?thesis
      by (simp add: Router_send_def)
  qed
qed

lemma Router_send_plain:
  "registeredTasks st = [] \<Longrightarrow> Router_send m st = ConnectionHandler_send m st"
  using ConnectionHandler_send_fields(1) [of st m]
  by (simp add: Router_send_def executeTaks_def same_tables_def)

lemma run_list_tables: "same_tables st st' \<Longrightarrow> run_list d st' = run_list d st"
  by (simp add: run_list_def same_tables_def)

lemma handler_trace_ran: "handler_trace (ran d run st) = handler_trace st @ handler_runs d run"
proof -
  have "filter (\<lambda>e. case e of HandlerRun l this d \<Rightarrow> True | _ \<Rightarrow> False) (handler_runs d run)
      = handler_runs d run"
    by (induction run) (auto simp add: handler_runs_def)
  then show ?thesis
    by (simp add: handler_trace_def ran_def)
qed

lemma transmitted_ran: "transmitted (ran d run st) = transmitted st"
proof -
  have "concat (map (\<lambda>e. case e of Transmit m \<Rightarrow> [m] | _ \<Rightarrow> []) (handler_runs d run)) = []"
    by (induction run) (auto simp add: handler_runs_def)
  then show ?thesis
    by (simp add: transmitted_def ran_def)
qed

lemma ran_fields:
  "same_tables st (ran d run st)" "readyState (ran d run st) = readyState st"
  "ctx (ran d run st) = ctx st" "registeredTasks (ran d run st) = registeredTasks st"
  by (simp_all add: ran_def same_tables_def)

text \<open>
  C5, as the claim states it, fails on two inputs. A handler that throws \<^verbatim>\<open>null\<close>: the
  read of \<^verbatim>\<open>error.stack\<close> in the \<^verbatim>\<open>catch\<close> of \<^verbatim>\<open>runner\<close> throws a TypeError, which
  leaves \<^verbatim>\<open>runner\<close> and \<^verbatim>\<open>dispatch\<close>, and no error message is made. A handler that throws
  an \<^verbatim>\<open>Error\<close> while a BEFORE task registered on \<^verbatim>\<open>/socket/error\<close> throws: the error
  message goes into \<^verbatim>\<open>Router.send\<close>, the task aborts that send, and nothing is
  transmitted or queued.
\<close>

theorem handler_failure_not_reported:
  "run_list room_message (open_router\<lparr>events := [room_event ''A'', throwing_event ''N'' JNull]\<rparr>) =
     Val [(quiet ''A'', JUndefined), (failing ''N'' JNull, JUndefined)] \<and>
   runner [(quiet ''A'', JUndefined), (failing ''N'' JNull, JUndefined)] (data room_message)
       (open_router\<lparr>events := [room_event ''A'', throwing_event ''N'' JNull]\<rparr>) =
     Inl (TypeError,
          open_router
            \<lparr>events := [room_event ''A'', throwing_event ''N'' JNull],
             trace := [NewWebSocket ''ws://localhost:8080'',
                       HandlerRun ''A'' JUndefined (data room_message),
                       HandlerRun ''N'' JUndefined (data room_message)]\<rparr>) \<and>
   dispatch room_message (open_router\<lparr>events := [room_event ''A'', throwing_event ''N'' JNull]\<rparr>) =
     Throw TypeError \<and>
   beforeSend ''/socket/error'' (failing ''guard'' ''Error: guard'')
       (open_router\<lparr>events := [throwing_event ''B'' error_B]\<rparr>) =
     Some (open_router\<lparr>events := [throwing_event ''B'' error_B], registeredTasks := [guard_task]\<rparr>) \<and>
   dispatch room_message
       (open_router\<lparr>events := [throwing_event ''B'' error_B], registeredTasks := [guard_task]\<rparr>) =
     Val (open_router
            \<lparr>events := [throwing_event ''B'' error_B], registeredTasks := [guard_task],
             trace := [NewWebSocket ''ws://localhost:8080'',
                       HandlerRun ''B'' JUndefined (data room_message),
                       TaskRun ''guard'' (error_message (JStr ''Error: B'')),
                       ConsoleLogError (ErrorObject ''Error: guard'')]\<rparr>) \<and>
   messageQueue open_router = []"
proof -
  let ?n = "open_router\<lparr>events := [room_event ''A'', throwing_event ''N'' JNull]\<rparr>"
  let ?g = "open_router\<lparr>events := [throwing_event ''B'' error_B], registeredTasks := [guard_task]\<rparr>"
  have sel: "run_list room_message ?n = Val [(quiet ''A'', JUndefined), (failing ''N'' JNull, JUndefined)]"
    by (simp add: run_list_def room_event_selected throwing_event_selected applyToQueue_room
        applyToQueue_throwing open_router_fields)
  have run: "runner [(quiet ''A'', JUndefined), (failing ''N'' JNull, JUndefined)] (data room_message) ?n =
     Inl (TypeError,
          open_router
            \<lparr>events := [room_event ''A'', throwing_event ''N'' JNull],
             trace := [NewWebSocket ''ws://localhost:8080'',
                       HandlerRun ''A'' JUndefined (data room_message),
                       HandlerRun ''N'' JUndefined (data room_message)]\<rparr>)"
    by (simp add: runner_def ExceptionHandler_def quiet_def failing_def Let_def open_router_fields)
  have d1: "dispatch room_message ?n = Throw TypeError"
    using sel run by (simp add: dispatch_def)
  have reg: "beforeSend ''/socket/error'' (failing ''guard'' ''Error: guard'')
       (open_router\<lparr>events := [throwing_event ''B'' error_B]\<rparr>) = Some ?g"
    by (simp add: beforeSend_def registerSendTask_def routify_facts guard_task_def open_router_def
        WebSocketRouter_def connect_def)
  have match: "matches error_pattern ''/socket/error''"
    by (simp add: error_pattern_def)
  have d2: "dispatch room_message ?g =
     Val (open_router
            \<lparr>events := [throwing_event ''B'' error_B], registeredTasks := [guard_task],
             trace := [NewWebSocket ''ws://localhost:8080'',
                       HandlerRun ''B'' JUndefined (data room_message),
                       TaskRun ''guard'' (error_message (JStr ''Error: B'')),
                       ConsoleLogError (ErrorObject ''Error: guard'')]\<rparr>)"
    using match
    by (simp add: dispatch_def run_list_def throwing_event_selected applyToQueue_throwing
        open_router_fields runner_def ExceptionHandler_def error_B_def failing_def Let_def
        Router_error_def Router_send_def executeTaks_def shouldTaskExecute_def exec_def
        guard_task_def console_log_def error_message_def)
  show ?thesis
    using sel run d1 reg d2 room_facts(6) by simp
qed

text \<open>
  C5, amended: for every dispatch whose run-list contains a handler that throws a value
  other than \<^verbatim>\<open>null\<close> and \<^verbatim>\<open>undefined\<close> (the values whose \<^verbatim>\<open>stack\<close> can be read), the
  handlers run strictly in order up to the first one that throws, the entries after it
  are not run, and the dispatch passes exactly one message to \<^verbatim>\<open>Router.send\<close>: the
  message on \<^verbatim>\<open>/socket/error\<close> whose data is \<^verbatim>\<open>{message: stack}\<close>, for the \<^verbatim>\<open>stack\<close>
  of the thrown value. That message is the one frame transmitted when the socket is
  open, the stack can be serialised and every BEFORE task that matches
  \<^verbatim>\<open>/socket/error\<close> returns. The dispatch returns, and the collections and the context
  of the router are as before, so a later dispatch selects the run-list it would have
  selected.
\<close>

theorem handler_failure_containment:
  "run_list d st = Val (pre @ (h, this) # post) \<and>
   list_all (handler_returns (data d)) pre \<and> body h this (data d) = Some thrown \<and>
   stack_property thrown = Inr stack \<longrightarrow>
     dispatch d st =
       Val (Router_send (error_message stack) (ran (data d) (pre @ [(h, this)]) st)) \<and>
     handler_trace (Router_send (error_message stack) (ran (data d) (pre @ [(h, this)]) st)) =
       handler_trace st @ handler_runs (data d) (pre @ [(h, this)]) \<and>
     same_tables st (Router_send (error_message stack) (ran (data d) (pre @ [(h, this)]) st)) \<and>
     run_list d' (Router_send (error_message stack) (ran (data d) (pre @ [(h, this)]) st)) =
       run_list d' st \<and>
     (readyState st = 1 \<and> serializable stack \<and>
      list_all (returns (ctx st) (error_message stack))
        (selected_tasks BEFORE ''/socket/error'' (registeredTasks st)) \<longrightarrow>
        transmitted (Router_send (error_message stack) (ran (data d) (pre @ [(h, this)]) st)) =
          transmitted st @ [error_message stack])"
proof (intro impI, elim conjE)
  let ?st' = "ran (data d) (pre @ [(h, this)]) st"
  let ?result = "Router_send (error_message stack) ?st'"
  assume sel: "run_list d st = Val (pre @ (h, this) # post)"
    and pre: "list_all (handler_returns (data d)) pre"
    and thr: "body h this (data d) = Some thrown"
    and stack: "stack_property thrown = Inr stack"
  have eq: "dispatch d st = Val ?result"
    using sel runner_reports [OF pre thr stack, of post st] by (simp add: dispatch_def)
  have ht: "handler_trace ?result = handler_trace st @ handler_runs (data d) (pre @ [(h, this)])"
    using Router_send_handler_trace [of "error_message stack" ?st']
      handler_trace_ran [of "data d" "pre @ [(h, this)]" st]
    by simp
  have "same_tables ?st' ?result"
    using Router_send_tables [of ?st' "error_message stack"] .
  then have tabs: "same_tables st ?result"
    using ran_fields(1) [of st "data d" "pre @ [(h, this)]"] by (simp add: same_tables_def)
  have sent: "transmitted ?result = transmitted st @ [error_message stack]"
    if "readyState st = 1" "serializable stack"
      "list_all (returns (ctx st) (error_message stack))
        (selected_tasks BEFORE ''/socket/error'' (registeredTasks st))"
  proof -
    have r: "ToString (route (error_message stack)) = Inr ''/socket/error''"
      by (simp add: error_message_def)
    have ser: "serializable_msg (error_message stack)"
      using that(2) by (simp add: serializable_msg_def error_message_def)
    have "transmitted ?result = transmitted ?st' @ [error_message stack]"
      using Router_send_transmits [OF r _ _ ser, of ?st'] that(1) that(3) by (simp add: ran_fields)
    then show ?thesis
      by (simp add: transmitted_ran)
  qed
  show "dispatch d st = Val ?result \<and>
     handler_trace ?result = handler_trace st @ handler_runs (data d) (pre @ [(h, this)]) \<and>
     same_tables st ?result \<and>
     run_list d' ?result = run_list d' st \<and>
     (readyState st = 1 \<and> serializable stack \<and>
      list_all (returns (ctx st) (error_message stack))
        (selected_tasks BEFORE ''/socket/error'' (registeredTasks st)) \<longrightarrow>
        transmitted ?result = transmitted st @ [error_message stack])"
    using eq ht tabs run_list_tables [OF tabs, of d'] sent by blast
qed

theorem handler_failure_containment_witness:
  "run_list room_message
       (open_router\<lparr>events := [room_event ''A'', throwing_event ''B'' error_B, room_event ''C'']\<rparr>) =
     Val ([(quiet ''A'', JUndefined)] @ (failing ''B'' error_B, JUndefined) # [(quiet ''C'', JUndefined)]) \<and>
   stack_property error_B = Inr (JStr ''Error: B'') \<and>
   dispatch room_message
       (open_router\<lparr>events := [room_event ''A'', throwing_event ''B'' error_B, room_event ''C'']\<rparr>) =
     Val (open_router
            \<lparr>events := [room_event ''A'', throwing_event ''B'' error_B, room_event ''C''],
             trace := [NewWebSocket ''ws://localhost:8080'',
                       HandlerRun ''A'' JUndefined (data room_message),
                       HandlerRun ''B'' JUndefined (data room_message),
                       Transmit \<lparr>route = JStr ''/socket/error'', action = JUndefined,
                                 data = JObj [(''message'', JStr ''Error: B'')]\<rparr>]\<rparr>) \<and>
   transmitted (Router_send (error_message (JStr ''Error: B''))
       (ran (data room_message) ([(quiet ''A'', JUndefined)] @ [(failing ''B'' error_B, JUndefined)])
          (open_router\<lparr>events := [room_event ''A'', throwing_event ''B'' error_B, room_event ''C'']\<rparr>))) =
     [error_message (JStr ''Error: B'')]"
proof -
  let ?st = "open_router\<lparr>events := [room_event ''A'', throwing_event ''B'' error_B, room_event ''C'']\<rparr>"
  let ?pre = "[(quiet ''A'', JUndefined)] :: ((jsval, jsval) callback \<times> jsval) list"
  let ?post = "[(quiet ''C'', JUndefined)] :: ((jsval, jsval) callback \<times> jsval) list"
  let ?result = "Router_send (error_message (JStr ''Error: B''))
       (ran (data room_message) (?pre @ [(failing ''B'' error_B, JUndefined)]) ?st)"
  have sel: "run_list room_message ?st = Val (?pre @ (failing ''B'' error_B, JUndefined) # ?post)"
    by (simp add: run_list_def room_event_selected throwing_event_selected applyToQueue_room
        applyToQueue_throwing open_router_fields)
  have pre: "list_all (handler_returns (data room_message)) ?pre"
    by (simp add: handler_returns_def quiet_def)
  have thr: "body (failing ''B'' error_B) JUndefined (data room_message) = Some error_B"
    by (simp add: failing_def)
  have stack: "stack_property error_B = Inr (JStr ''Error: B'')"
    by (simp add: error_B_def)
  have st: "registeredTasks ?st = []" "readyState ?st = 1" "transmitted ?st = []"
    "trace ?st = [NewWebSocket ''ws://localhost:8080'']"
    by (simp_all add: open_router_def WebSocketRouter_def connect_def transmitted_def)
  have hooks: "list_all (returns (ctx ?st) (error_message (JStr ''Error: B'')))
      (selected_tasks BEFORE ''/socket/error'' (registeredTasks ?st))"
    using st(1) by (simp add: selected_tasks_def)
  note claim = handler_failure_containment [where d = room_message and st = ?st and pre = ?pre
      and h = "failing ''B'' error_B" and this = JUndefined and post = ?post and thrown = error_B
      and stack = "JStr ''Error: B''"]
  from claim sel pre thr stack have d: "dispatch room_message ?st = Val ?result"
    by blast
  from claim sel pre thr stack st(2) hooks have sent: "transmitted ?result = transmitted ?st @
      [error_message (JStr ''Error: B'')]"
    by simp
  have plain: "?result =
      open_router
            \<lparr>events := [room_event ''A'', throwing_event ''B'' error_B, room_event ''C''],
             trace := [NewWebSocket ''ws://localhost:8080'',
                       HandlerRun ''A'' JUndefined (data room_message),
                       HandlerRun ''B'' JUndefined (data room_message),
                       Transmit \<lparr>route = JStr ''/socket/error'', action = JUndefined,
                                 data = JObj [(''message'', JStr ''Error: B'')]\<rparr>]\<rparr>"
    using st
    by (simp add: Router_send_plain ran_def handler_runs_def quiet_def failing_def
        ConnectionHandler_send_cases error_message_def serializable_msg_def)
  show ?thesis
    using sel stack d sent st(3) plain by simp
qed

section \<open>Flush and close\<close>

lemma flush_loop_never_returns:
  assumes "flush_loop i st = Some y"
  shows "\<not> (i < length (messageQueue st) \<and>
           list_all (\<lambda>m. \<not> serializable_msg m) (messageQueue st))"
proof (rule flush_loop.raw_induct
    [where P = "\<lambda>i st y. \<not> (i < length (messageQueue st) \<and>
                  list_all (\<lambda>m. \<not> serializable_msg m) (messageQueue st))", OF _ assms])
  fix loop :: "nat \<Rightarrow> state \<Rightarrow> state option" and i st y
  assume ih: "\<And>j s z. loop j s = Some z \<Longrightarrow>
      \<not> (j < length (messageQueue s) \<and> list_all (\<lambda>m. \<not> serializable_msg m) (messageQueue s))"
    and step: "(if i < length (messageQueue st)
        then loop (Suc i) (ConnectionHandler_send (messageQueue st ! i) st) else Some st) = Some y"
  show "\<not> (i < length (messageQueue st) \<and>
           list_all (\<lambda>m. \<not> serializable_msg m) (messageQueue st))"
  proof
    assume inv: "i < length (messageQueue st) \<and>
      list_all (\<lambda>m. \<not> serializable_msg m) (messageQueue st)"
    let ?m = "messageQueue st ! i"
    let ?st' = "st\<lparr>messageQueue := messageQueue st @ [?m]\<rparr>"
    from inv have bad: "\<not> serializable_msg ?m"
      by (simp add: list_all_length)
    then have send: "ConnectionHandler_send ?m st = ?st'"
      by (simp add: ConnectionHandler_send_def transport_send_def)
    from step inv send have "loop (Suc i) ?st' = Some y"
      by simp
    from ih [OF this] inv bad show False
      by simp
  qed
qed

lemma flush_loop_diverges:
  "i < length (messageQueue st) \<Longrightarrow>
   list_all (\<lambda>m. \<not> serializable_msg m) (messageQueue st) \<Longrightarrow> flush_loop i st = None"
  using flush_loop_never_returns [of i st] by (cases "flush_loop i st") auto

lemma flush_loop_open:
  "readyState st = 1 \<Longrightarrow> list_all serializable_msg (messageQueue st) \<Longrightarrow>
     flush_loop i st = Some (st\<lparr>trace := trace st @ map Transmit (drop i (messageQueue st))\<rparr>)"
proof (induction "length (messageQueue st) - i" arbitrary: i st)
  case 0
  then have "\<not> i < length (messageQueue st)" by simp
  then show ?case
    by (subst flush_loop.simps) simp
next
  case (Suc n)
  then have lt: "i < length (messageQueue st)" by simp
  let ?m = "messageQueue st ! i"
  let ?st' = "st\<lparr>trace := trace st @ [Transmit ?m]\<rparr>"
  from Suc.prems lt have "serializable_msg ?m"
    by (simp add: list_all_length)
  with Suc.prems have send: "ConnectionHandler_send ?m st = ?st'"
    by (simp add: ConnectionHandler_send_def transport_send_def)
  have n: "n = length (messageQueue ?st') - Suc i"
    using Suc.hyps(2) by simp
  have "flush_loop i st = flush_loop (Suc i) ?st'"
    using lt send by (subst flush_loop.simps) simp
  also have "\<dots> = Some (?st'\<lparr>trace := trace ?st' @ map Transmit (drop (Suc i) (messageQueue ?st'))\<rparr>)"
    using Suc.hyps(1) [OF n] Suc.prems by simp
  finally show ?case
    by (simp add: Cons_nth_drop_Suc [OF lt, symmetric])
qed

lemma flush_open:
  "readyState st = 1 \<Longrightarrow> list_all serializable_msg (messageQueue st) \<Longrightarrow>
     flush st =
       Some (st\<lparr>connectionsAttemp := 0, messageQueue := [],
               trace := trace st @ map Transmit (messageQueue st)\<rparr>)"
  using flush_loop_open [of "st\<lparr>connectionsAttemp := 0\<rparr>" 0] by (simp add: flush_def)

lemma queued_while_connecting:
  "Router_send m (WebSocketRouter q c) =
     (WebSocketRouter q c)\<lparr>messageQueue := [m]\<rparr>"
  by (simp add: Router_send_def executeTaks_def ConnectionHandler_send_def transport_send_def
      WebSocketRouter_def connect_def)

text \<open>
  C3 states that \<^verbatim>\<open>flush\<close> attempts every queued message once, in order, and then
  empties the queue, so that a message that failed again and was pushed back is
  dropped. On the code, a message whose send fails is pushed onto the array that the
  loop is walking, so the loop meets it again: a message whose serialisation throws
  was queued by \<^verbatim>\<open>send\<close>, and when the socket opens \<^verbatim>\<open>flush\<close> never returns and never
  reaches the assignment that empties the queue. (\<open>flush_open\<close> above is the case
  in which every queued message can be sent: the queue goes out in order and is left
  empty.)
\<close>

theorem flush_never_returns:
  "messageQueue (Router_send bigint_message (WebSocketRouter ''ws://localhost:8080'' JUndefined)) =
     [bigint_message] \<and>
   socket_opened (Router_send bigint_message (WebSocketRouter ''ws://localhost:8080'' JUndefined)) = None"
proof -
  let ?st = "Router_send bigint_message (WebSocketRouter ''ws://localhost:8080'' JUndefined)"
  have q: "messageQueue ?st = [bigint_message]"
    by (simp add: queued_while_connecting)
  have bad: "\<not> serializable_msg bigint_message"
    by (simp add: serializable_msg_def bigint_message_def)
  have "flush_loop 0 (?st\<lparr>readyState := 1, connectionsAttemp := 0\<rparr>) = None"
    using q bad by (intro flush_loop_diverges) simp_all
  then show ?thesis
    using q by (simp add: socket_opened_def flush_def)
qed

lemma Router_close_eq:
  "Router_close st = Inr (st\<lparr>router_messageQueue := Some [], handler_onopen := True\<rparr>)"
  by (simp add: Router_close_def handler_readyState_def)

text \<open>
  C9 states that \<^verbatim>\<open>close\<close> empties the outbound queue and closes the transport, at
  once when it is open and after it has opened otherwise. On the code, \<^verbatim>\<open>close\<close> is a
  method of the Router: in every state it only creates the property \<^verbatim>\<open>messageQueue\<close>
  on the Router and the property \<^verbatim>\<open>onopen\<close> on the ConnectionHandler. The queue of the
  ConnectionHandler and the socket are as before: an open socket stays open, and a
  message queued while the socket was connecting is still transmitted when the socket
  opens, after which the socket is open. It does not throw.
\<close>

theorem close_leaves_queue_and_socket:
  "Router_close st = Inr (st\<lparr>router_messageQueue := Some [], handler_onopen := True\<rparr>) \<and>
   Router_close open_router =
     Inr (open_router\<lparr>router_messageQueue := Some [], handler_onopen := True\<rparr>) \<and>
   readyState (open_router\<lparr>router_messageQueue := Some [], handler_onopen := True\<rparr>) = 1 \<and>
   Router_close (Router_send room_message (WebSocketRouter ''ws://localhost:8080'' JUndefined)) =
     Inr ((WebSocketRouter ''ws://localhost:8080'' JUndefined)
            \<lparr>router_messageQueue := Some [], messageQueue := [room_message], handler_onopen := True\<rparr>) \<and>
   socket_opened ((WebSocketRouter ''ws://localhost:8080'' JUndefined)
            \<lparr>router_messageQueue := Some [], messageQueue := [room_message], handler_onopen := True\<rparr>) =
     Some ((WebSocketRouter ''ws://localhost:8080'' JUndefined)
            \<lparr>router_messageQueue := Some [], messageQueue := [], connectionsAttemp := 0,
             handler_onopen := True, readyState := 1,
             trace := [NewWebSocket ''ws://localhost:8080'', Transmit room_message]\<rparr>)"
proof -
  let ?st = "(WebSocketRouter ''ws://localhost:8080'' JUndefined)
            \<lparr>router_messageQueue := Some [], messageQueue := [room_message], handler_onopen := True\<rparr>"
  have ser: "serializable_msg room_message"
    by (simp add: serializable_msg_def room_message_def)
  have "flush (?st\<lparr>readyState := 1\<rparr>) =
      Some (?st\<lparr>readyState := 1, connectionsAttemp := 0, messageQueue := [],
               trace := trace ?st @ map Transmit (messageQueue ?st)\<rparr>)"
    using flush_open [of "?st\<lparr>readyState := 1\<rparr>"] ser by simp
  then have opened: "socket_opened ?st =
     Some ((WebSocketRouter ''ws://localhost:8080'' JUndefined)
            \<lparr>router_messageQueue := Some [], messageQueue := [], connectionsAttemp := 0,
             handler_onopen := True, readyState := 1,
             trace := [NewWebSocket ''ws://localhost:8080'', Transmit room_message]\<rparr>)"
    by (simp add: socket_opened_def WebSocketRouter_def connect_def)
  have closed: "Router_close (Router_send room_message (WebSocketRouter ''ws://localhost:8080'' JUndefined)) =
      Inr ?st"
    by (simp add: Router_close_eq queued_while_connecting)
  have still_open: "readyState (open_router\<lparr>router_messageQueue := Some [], handler_onopen := True\<rparr>) = 1"
    by (simp add: open_router_def)
  show ?thesis
    using opened closed still_open Router_close_eq by simp
qed

end
